theory Spec2Isabelle
  imports Complex_Main "HOL-Library.Word"
begin

section \<open>Data: bytes, Python strings, exceptions\<close>

text \<open>
  A Python \<open>bytes\<close> object is a list of 8-bit words. A Python \<open>str\<close> is a list of
  Unicode code points (natural numbers up to \<open>0x10FFFF\<close>), so that \<open>len\<close> counts
  characters as Python does and the codecs can fail where Python's fail. \<open>py\<close> turns a
  literal of the theory into such a string.
\<close>

type_synonym byte = "8 word"
type_synonym bytes = "byte list"
type_synonym pystr = "nat list"

definition py :: "string \<Rightarrow> pystr" where
  "py s = map of_char s"

text \<open>The exceptions the modelled functions can raise; \<open>Inl\<close> of a result carries one.\<close>

datatype error =
    ValueError string
  | UnicodeEncodeError string
  | UnicodeDecodeError string
  | FileNotFoundError pystr
  | InvalidToken
  | HttpError nat pystr
  | JSONDecodeError
  | AttributeError
  | TypeError
  | IndexError
  | KeyError

section \<open>Codecs of the Python runtime\<close>

text \<open>
  \<open>str.encode('utf-8')\<close>: one to four bytes for each code point; a surrogate
  (\<open>0xD800\<close> to \<open>0xDFFF\<close>) cannot be encoded and raises \<open>UnicodeEncodeError\<close>.
  Numbers above \<open>0x10FFFF\<close> are no characters of a Python string; the encoder rejects
  them as well.
\<close>

definition utf8_char :: "nat \<Rightarrow> bytes option" where
  "utf8_char c =
     (if c < 0x80 then Some [of_nat c]
      else if c < 0x800 then Some [of_nat (0xC0 + c div 64), of_nat (0x80 + c mod 64)]
      else if c < 0x10000 then
        (if 0xD800 \<le> c \<and> c \<le> 0xDFFF then None
         else Some [of_nat (0xE0 + c div 4096), of_nat (0x80 + c div 64 mod 64),
                    of_nat (0x80 + c mod 64)])
      else if c < 0x110000 then
        Some [of_nat (0xF0 + c div 262144), of_nat (0x80 + c div 4096 mod 64),
              of_nat (0x80 + c div 64 mod 64), of_nat (0x80 + c mod 64)]
      else None)"

fun encode_utf8 :: "pystr \<Rightarrow> error + bytes" where
  "encode_utf8 [] = Inr []"
| "encode_utf8 (c # cs) =
     (case utf8_char c of
        None \<Rightarrow> Inl (UnicodeEncodeError ''utf-8'')
      | Some bs \<Rightarrow>
          (case encode_utf8 cs of Inl e \<Rightarrow> Inl e | Inr rest \<Rightarrow> Inr (bs @ rest)))"

text \<open>\<open>str.encode('ascii')\<close>: a code point of 128 or more raises.\<close>

fun encode_ascii :: "pystr \<Rightarrow> error + bytes" where
  "encode_ascii [] = Inr []"
| "encode_ascii (c # cs) =
     (if c < 128 then
        (case encode_ascii cs of Inl e \<Rightarrow> Inl e | Inr rest \<Rightarrow> Inr (of_nat c # rest))
      else Inl (UnicodeEncodeError ''ascii''))"

text \<open>\<open>bytes.decode('ascii')\<close>: a byte of 128 or more raises.\<close>

fun decode_ascii :: "bytes \<Rightarrow> error + pystr" where
  "decode_ascii [] = Inr []"
| "decode_ascii (b # bs) =
     (if unat b < 128 then
        (case decode_ascii bs of Inl e \<Rightarrow> Inl e | Inr rest \<Rightarrow> Inr (unat b # rest))
      else Inl (UnicodeDecodeError ''ascii''))"

text \<open>
  \<open>bytes.decode()\<close>, the strict UTF-8 decoder. \<open>utf8_step\<close> reads the sequence at the
  head of its argument (the bytes as numbers) and gives the code point and how many bytes
  follow the lead byte; it accepts exactly the shortest encodings of the code points that
  are not surrogates.
\<close>

definition cont :: "nat \<Rightarrow> bool" where
  "cont b = (0x80 \<le> b \<and> b < 0xC0)"

fun utf8_step :: "nat list \<Rightarrow> (nat \<times> nat) option" where
  "utf8_step [] = None"
| "utf8_step (b0 # bs) =
     (if b0 < 0x80 then Some (b0, 0)
      else if 0xC2 \<le> b0 \<and> b0 < 0xE0 then
        (case bs of
           b1 # _ \<Rightarrow> if cont b1 then Some ((b0 - 0xC0) * 64 + (b1 - 0x80), 1) else None
         | _ \<Rightarrow> None)
      else if 0xE0 \<le> b0 \<and> b0 < 0xF0 then
        (case bs of
           b1 # b2 # _ \<Rightarrow>
             (let c = (b0 - 0xE0) * 4096 + (b1 - 0x80) * 64 + (b2 - 0x80)
              in if cont b1 \<and> cont b2 \<and> 0x800 \<le> c \<and> \<not> (0xD800 \<le> c \<and> c \<le> 0xDFFF)
                 then Some (c, 2) else None)
         | _ \<Rightarrow> None)
      else if 0xF0 \<le> b0 \<and> b0 < 0xF5 then
        (case bs of
           b1 # b2 # b3 # _ \<Rightarrow>
             (let c = (b0 - 0xF0) * 262144 + (b1 - 0x80) * 4096 + (b2 - 0x80) * 64
                      + (b3 - 0x80)
              in if cont b1 \<and> cont b2 \<and> cont b3 \<and> 0x10000 \<le> c \<and> c < 0x110000
                 then Some (c, 3) else None)
         | _ \<Rightarrow> None)
      else None)"

function decode_utf8 :: "bytes \<Rightarrow> error + pystr" where
  "decode_utf8 [] = Inr []"
| "decode_utf8 (b # bs) =
     (case utf8_step (map unat (b # bs)) of
        None \<Rightarrow> Inl (UnicodeDecodeError ''utf-8'')
      | Some (c, n) \<Rightarrow>
          (case decode_utf8 (drop n bs) of Inl e \<Rightarrow> Inl e | Inr rest \<Rightarrow> Inr (c # rest)))"
  by pat_completeness auto
termination
  by (relation "measure length") auto

text \<open>
  \<open>binascii.hexlify\<close>: two lower-case hexadecimal digits (as ASCII bytes) for each byte.
\<close>

definition hexdigit :: "nat \<Rightarrow> byte" where
  "hexdigit n = (if n < 10 then of_nat (48 + n) else of_nat (87 + n))"

definition hexlify :: "bytes \<Rightarrow> bytes" where
  "hexlify bs = concat (map (\<lambda>b. [hexdigit (unat b div 16), hexdigit (unat b mod 16)]) bs)"

text \<open>The \<open>n\<close> bytes of a digest held in a word, most significant byte first.\<close>

definition word_bytes :: "nat \<Rightarrow> 'a::len word \<Rightarrow> bytes" where
  "word_bytes n w = map (\<lambda>i. ucast (drop_bit (8 * (n - 1 - i)) w)) [0..<n]"


text \<open>
  \<open>base64.urlsafe_b64encode\<close>: three bytes become four characters of the alphabet
  \<open>A-Z a-z 0-9 - _\<close>; a last group of one or two bytes is padded with \<open>=\<close>.
\<close>

definition b64char :: "nat \<Rightarrow> byte" where
  "b64char n =
     of_nat (if n < 26 then 65 + n else if n < 52 then 71 + n else if n < 62 then n - 4
             else if n = 62 then 45 else 95)"

fun urlsafe_b64encode :: "bytes \<Rightarrow> bytes" where
  "urlsafe_b64encode [] = []"
| "urlsafe_b64encode [x] =
     [b64char (unat x div 4), b64char (unat x mod 4 * 16), 61, 61]"
| "urlsafe_b64encode [x, y] =
     [b64char (unat x div 4), b64char (unat x mod 4 * 16 + unat y div 16),
      b64char (unat y mod 16 * 4), 61]"
| "urlsafe_b64encode (x # y # z # rest) =
     [b64char (unat x div 4), b64char (unat x mod 4 * 16 + unat y div 16),
      b64char (unat y mod 16 * 4 + unat z div 64), b64char (unat z mod 64)]
     @ urlsafe_b64encode rest"

text \<open>\<open>os.path.join\<close> of two components (POSIX): an absolute second component wins.\<close>

definition os_path_join :: "pystr \<Rightarrow> pystr \<Rightarrow> pystr" where
  "os_path_join a b =
     (if b \<noteq> [] \<and> hd b = 47 then b
      else if a = [] \<or> last a = 47 then a @ b
      else a @ [47] @ b)"

section \<open>The machine the program runs on\<close>

text \<open>
  The functions of \<open>encryption.py\<close> and \<open>functions.py\<close> read and write files, draw random
  bytes, log and keep the key in the function attribute \<open>convert.key\<close>. The model passes
  this state explicitly:
  \<^item> \<open>files\<close> maps a path to the contents of the file there; \<open>can_create\<close> says whether a
    file that does not exist yet can be created at a path (its directory exists and is
    writable);
  \<^item> \<open>entropy\<close> is the endless sequence of bytes \<open>os.urandom\<close> will deliver and \<open>drawn\<close>
    how many were taken so far; \<open>clock\<close> is the time in seconds;
  \<^item> \<open>convert_key\<close> is the attribute \<open>convert.key\<close> (\<open>None\<close> while it is not set);
  \<^item> \<open>events\<close> records, oldest first, what was logged, which calls of the encryption
    primitive were made and which background threads were started.
\<close>

datatype event =
    LogDebug pystr
  | LogError pystr
  | FernetEncrypt bytes
  | FernetDecrypt bytes
  | ThreadStart pystr "pystr list"

record world =
  files :: "pystr \<rightharpoonup> bytes"
  can_create :: "pystr \<Rightarrow> bool"
  entropy :: "nat \<Rightarrow> byte"
  drawn :: nat
  clock :: nat
  convert_key :: "bytes option"
  events :: "event list"

definition urandom :: "nat \<Rightarrow> world \<Rightarrow> bytes \<times> world" where
  "urandom n w = (map (entropy w) [drawn w ..< drawn w + n], w\<lparr>drawn := drawn w + n\<rparr>)"

definition log_event :: "event \<Rightarrow> world \<Rightarrow> world" where
  "log_event e w = w\<lparr>events := events w @ [e]\<rparr>"

section \<open>Library primitives\<close>

text \<open>
  \<open>hashlib\<close> and \<open>cryptography.fernet\<close> are libraries, not code of this repository. The
  hash functions are parameters of the model, typed by their digest size: SHA-256 yields
  256 bits, PBKDF2-HMAC-SHA512 (password, salt, iterations; default key length) 512 bits.
\<close>

record hashlib =
  sha256 :: "bytes \<Rightarrow> 256 word"
  pbkdf2_hmac_sha512 :: "bytes \<Rightarrow> bytes \<Rightarrow> nat \<Rightarrow> 512 word"

text \<open>
  The Fernet primitive is a parameter as well: \<open>accepts_key k\<close> says whether the
  constructor \<open>Fernet(k)\<close> takes \<open>k\<close> (it raises \<open>ValueError\<close> otherwise);
  \<open>encrypt k iv t data\<close> is the token made under key \<open>k\<close> with the 16 random bytes
  \<open>iv\<close> at time \<open>t\<close>; \<open>decrypt k token\<close> is \<open>None\<close> where the library raises
  \<open>InvalidToken\<close>.
\<close>

record fernet =
  accepts_key :: "bytes \<Rightarrow> bool"
  encrypt :: "bytes \<Rightarrow> bytes \<Rightarrow> nat \<Rightarrow> bytes \<Rightarrow> bytes"
  decrypt :: "bytes \<Rightarrow> bytes \<Rightarrow> bytes option"

text \<open>
  What the library promises of a key it accepts: a token decrypts to the data it was
  made from, and a token is never empty.
\<close>

definition fernet_sound :: "fernet \<Rightarrow> bool" where
  "fernet_sound F =
     (\<forall>k iv t d. accepts_key F k \<longrightarrow>
        decrypt F k (encrypt F k iv t d) = Some d \<and> encrypt F k iv t d \<noteq> [])"

text \<open>
  \<open>Fernet.generate_key()\<close> is \<open>base64.urlsafe_b64encode(os.urandom(32))\<close>.
\<close>

definition fernet_generate_key :: "world \<Rightarrow> bytes \<times> world" where
  "fernet_generate_key w = (let (rb, w1) = urandom 32 w in (urlsafe_b64encode rb, w1))"

section \<open>encryption.py\<close>

subsection \<open>Key file\<close>

text \<open>
  \<open>_generate_key\<close> (lines 11 to 19): opening the file for writing creates it or empties
  it; where it can be neither, \<open>open\<close> raises \<open>FileNotFoundError\<close>.
\<close>

definition generate_key :: "pystr \<Rightarrow> pystr \<Rightarrow> world \<Rightarrow> (error + unit) \<times> world" where
  "generate_key file_path file_name w =
     (let (key, w1) = fernet_generate_key w;
          file = os_path_join file_path file_name
      in if files w1 file \<noteq> None \<or> can_create w1 file
         then (Inr (), w1\<lparr>files := (files w1)(file \<mapsto> key)\<rparr>)
         else (Inl (FileNotFoundError file), w1))"

text \<open>
  \<open>_load_key\<close> (lines 22 to 39). A failure of the second attempt is an \<open>IOError\<close>: it is
  logged and raised again.
\<close>

definition load_key :: "pystr \<Rightarrow> pystr \<Rightarrow> world \<Rightarrow> (error + bytes) \<times> world" where
  "load_key file_path file_name w =
     (let file = os_path_join file_path file_name
      in case files w file of
           Some data \<Rightarrow> (Inr data, w)
         | None \<Rightarrow>
             (case generate_key file_path file_name w of
                (Inl e, w1) \<Rightarrow>
                  (Inl e, log_event (LogError (py ''Could not open or create key file '' @ file)) w1)
              | (Inr u, w1) \<Rightarrow>
                  (case files w1 file of
                     Some data \<Rightarrow> (Inr data, w1)
                   | None \<Rightarrow>
                       (Inl (FileNotFoundError file),
                        log_event (LogError (py ''Could not open or create key file '' @ file)) w1))))"

subsection \<open>convert\<close>

text \<open>
  Lines 61 to 64 of \<open>convert\<close>: the key is kept in the attribute \<open>convert.key\<close> and
  loaded, with the default arguments of \<open>_load_key\<close>, when the attribute is not set.
\<close>

definition cached_key :: "world \<Rightarrow> (error + bytes) \<times> world" where
  "cached_key w =
     (case convert_key w of
        None \<Rightarrow>
          (case load_key (py ''./'') (py ''key.key'')
                  (log_event (LogDebug (py ''Creating new key'')) w) of
             (Inl e, w1) \<Rightarrow> (Inl e, w1)
           | (Inr k, w1) \<Rightarrow> (Inr k, w1\<lparr>convert_key := Some k\<rparr>))
      | Some k \<Rightarrow> (Inr k, w))"

text \<open>
  \<open>convert\<close> (lines 42 to 86). The result is \<open>Optional[bytes]\<close>: \<open>None\<close> after a
  conversion written back to the file, the data otherwise. \<open>Fernet(convert.key)\<close> raises
  \<open>ValueError\<close> for a key it does not accept. An empty file is returned as it is, before
  the primitive is reached. A missing file is an \<open>IOError\<close> (logged, raised again);
  \<open>InvalidToken\<close> is not and passes through unlogged.
\<close>

definition convert ::
  "fernet \<Rightarrow> pystr \<Rightarrow> pystr \<Rightarrow> pystr \<Rightarrow> pystr \<Rightarrow> world \<Rightarrow> (error + bytes option) \<times> world" where
  "convert F file_name conversion_type file_path storage_type w =
     (let file = os_path_join file_path file_name
      in if conversion_type \<notin> set [py ''encrypt'', py ''decrypt'']
         then (Inl (ValueError ''conversion_type is not supported''), w)
         else if storage_type \<notin> set [py ''write'', py ''return'']
         then (Inl (ValueError ''storage_type is not supported''), w)
         else
           (case cached_key w of
              (Inl e, w1) \<Rightarrow> (Inl e, w1)
            | (Inr k, w2) \<Rightarrow>
                if \<not> accepts_key F k
                then (Inl (ValueError ''Fernet key must be 32 url-safe base64-encoded bytes.''), w2)
                else
                  (case files w2 file of
                     None \<Rightarrow>
                       (Inl (FileNotFoundError file),
                        log_event (LogError (py ''Could not open file '' @ file
                                     @ py '' to convert with '' @ conversion_type)) w2)
                   | Some file_data \<Rightarrow>
                       if file_data = [] then (Inr (Some file_data), w2)
                       else
                         (case (if conversion_type = py ''encrypt''
                                then (let (iv, w3) = urandom 16 w2
                                      in (Inr (encrypt F k iv (clock w3) file_data),
                                          log_event (FernetEncrypt file_data) w3))
                                else (case decrypt F k file_data of
                                        None \<Rightarrow> Inl InvalidToken
                                      | Some d \<Rightarrow> Inr d,
                                      log_event (FernetDecrypt file_data) w2)) of
                            (Inl e, w4) \<Rightarrow> (Inl e, w4)
                          | (Inr converted_data, w4) \<Rightarrow>
                              if storage_type = py ''write''
                              then (Inr None,
                                    w4\<lparr>files := (files w4)(file \<mapsto> converted_data)\<rparr>)
                              else (Inr (Some converted_data), w4)))))"

text \<open>The calls of the encryption primitive that were made so far.\<close>

fun fernet_call :: "event \<Rightarrow> bool" where
  "fernet_call (FernetEncrypt d) = True"
| "fernet_call (FernetDecrypt d) = True"
| "fernet_call e = False"

definition primitive_calls :: "world \<Rightarrow> event list" where
  "primitive_calls w = filter fernet_call (events w)"

subsection \<open>Password hashing\<close>

text \<open>\<open>get_password_hash\<close> (lines 89 to 97).\<close>

definition get_password_hash :: "hashlib \<Rightarrow> pystr \<Rightarrow> world \<Rightarrow> (error + pystr) \<times> world" where
  "get_password_hash H word w =
     (let (rb, w1) = urandom 60 w
      in case encode_utf8 (map unat (hexlify (word_bytes 32 (sha256 H rb)))) of
           Inl e \<Rightarrow> (Inl e, w1)
         | Inr salt \<Rightarrow>
             (case encode_utf8 word of
                Inl e \<Rightarrow> (Inl e, w1)
              | Inr wb \<Rightarrow>
                  (let pwdhash = word_bytes 64 (pbkdf2_hmac_sha512 H wb salt 100000);
                       pwdhash = hexlify pwdhash
                   in case decode_utf8 (salt @ pwdhash) of
                        Inl e \<Rightarrow> (Inl e, w1)
                      | Inr s \<Rightarrow> (Inr s, w1))))"

text \<open>\<open>verify_password\<close> (lines 100 to 113).\<close>

definition verify_password :: "hashlib \<Rightarrow> pystr \<Rightarrow> pystr \<Rightarrow> error + bool" where
  "verify_password H provided_password stored_password =
     (if length provided_password > 1024
      then Inl (ValueError ''Password length must not exceed 1024'')
      else
        (let salt = take 64 stored_password;
             stored_password = drop 64 stored_password
         in case encode_utf8 provided_password of
              Inl e \<Rightarrow> Inl e
            | Inr pb \<Rightarrow>
                (case encode_ascii salt of
                   Inl e \<Rightarrow> Inl e
                 | Inr sb \<Rightarrow>
                     (case decode_ascii (hexlify (word_bytes 64
                               (pbkdf2_hmac_sha512 H pb sb 100000))) of
                        Inl e \<Rightarrow> Inl e
                      | Inr pwdhash \<Rightarrow> Inr (pwdhash = stored_password)))))"

section \<open>functions.py: the password registry\<close>

text \<open>
  \<open>str.isspace\<close> on one character: the code points Python counts as whitespace.
  \<open>str.rstrip()\<close> removes them from the end; \<open>str.split(sep)\<close> with a one-character
  separator cuts at every occurrence and always returns at least one piece.
\<close>

definition isspace :: "nat \<Rightarrow> bool" where
  "isspace c =
     ((0x09 \<le> c \<and> c \<le> 0x0D) \<or> (0x1C \<le> c \<and> c \<le> 0x20) \<or> c = 0x85 \<or> c = 0xA0
      \<or> c = 0x1680 \<or> (0x2000 \<le> c \<and> c \<le> 0x200A) \<or> c = 0x2028 \<or> c = 0x2029
      \<or> c = 0x202F \<or> c = 0x205F \<or> c = 0x3000)"

definition rstrip :: "pystr \<Rightarrow> pystr" where
  "rstrip s = rev (dropWhile isspace (rev s))"

fun split_on :: "nat \<Rightarrow> pystr \<Rightarrow> pystr list" where
  "split_on sep [] = [[]]"
| "split_on sep (c # cs) =
     (if c = sep then [] # split_on sep cs
      else (case split_on sep cs of [] \<Rightarrow> [[c]] | x # xs \<Rightarrow> (c # x) # xs))"

text \<open>
  A file opened in text mode for writing encodes what is written (UTF-8, with \<open>\n\<close>
  written as it is: the POSIX behaviour). \<open>writelines\<close> writes line after line, so a line
  that cannot be encoded raises after the lines before it were written.
\<close>

fun write_lines :: "pystr list \<Rightarrow> bytes \<times> error option" where
  "write_lines [] = ([], None)"
| "write_lines (l # ls) =
     (case encode_utf8 l of
        Inl e \<Rightarrow> ([], Some e)
      | Inr b \<Rightarrow> (let (rest, r) = write_lines ls in (b @ rest, r)))"

text \<open>
  Lines 96 to 100 of \<open>_store_password\<close>: the lines of the decoded registry, each without
  the whitespace at its end, and no line at all for an empty text.
\<close>

definition registry_lines :: "pystr \<Rightarrow> pystr list" where
  "registry_lines text =
     (let data = split_on 10 (rstrip text);
          data = map rstrip data
      in if data = [[]] then [] else data)"

text \<open>
  \<open>_store_password\<close> (lines 89 to 106). The thread started in the last line uploads the
  file in the background; the model records that it was started.
\<close>

definition store_password ::
  "fernet \<Rightarrow> hashlib \<Rightarrow> pystr \<Rightarrow> pystr \<Rightarrow> pystr \<Rightarrow> world \<Rightarrow> (error + unit) \<times> world" where
  "store_password F H file_name password password_file w =
     (case convert F password_file (py ''decrypt'') (py ''Storage'') (py ''return'') w of
        (Inl e, w1) \<Rightarrow> (Inl e, w1)
      | (Inr None, w1) \<Rightarrow> (Inl AttributeError, w1)
      | (Inr (Some password_data), w1) \<Rightarrow>
          (case decode_utf8 password_data of
             Inl e \<Rightarrow> (Inl e, w1)
           | Inr text \<Rightarrow>
               (let data = registry_lines text
                in case get_password_hash H password w1 of
                     (Inl e, w2) \<Rightarrow> (Inl e, w2)
                   | (Inr hash, w2) \<Rightarrow>
                       (let line = file_name @ [9] @ hash;
                            data = data @ [line];
                            file = os_path_join (py ''Storage'') password_file
                        in if files w2 file = None \<and> \<not> can_create w2 file
                           then (Inl (FileNotFoundError file), w2)
                           else
                             (case write_lines (map (\<lambda>l. l @ [10]) data) of
                                (written, Some e) \<Rightarrow>
                                  (Inl e, w2\<lparr>files := (files w2)(file \<mapsto> written)\<rparr>)
                              | (written, None) \<Rightarrow>
                                  (case convert F password_file (py ''encrypt'') (py ''Storage'')
                                          (py ''write'')
                                          (w2\<lparr>files := (files w2)(file \<mapsto> written)\<rparr>) of
                                     (Inl e, w3) \<Rightarrow> (Inl e, w3)
                                   | (Inr u, w3) \<Rightarrow>
                                       (Inr (),
                                        log_event (ThreadStart (py ''gdrive.save_file'')
                                          [password_file, py ''Password'', py ''Storage'']) w3)))))))"

text \<open>
  The registry as the claims speak of it: \<open>registry_text\<close> is the text of a list of lines
  as \<open>_store_password\<close> writes it, \<open>record_line\<close> a line that holds a record (not empty,
  no line break inside, no whitespace at its end: the stored string ends in a hexadecimal
  digit), \<open>records_of file_name ls\<close> the lines of \<open>ls\<close> that begin with \<open>file_name\<close> and
  a tab.
\<close>

definition registry_text :: "pystr list \<Rightarrow> pystr" where
  "registry_text ls = concat (map (\<lambda>l. l @ [10]) ls)"

definition record_line :: "pystr \<Rightarrow> bool" where
  "record_line l = (l \<noteq> [] \<and> \<not> isspace (last l) \<and> 10 \<notin> set l)"

text \<open>
  What \<open>convert\<close> in the mode \<open>decrypt\<close> makes of the registry file \<open>blob\<close> (an empty
  file stands for an empty registry), and the statement that the registry file of the
  state \<open>w\<close> holds exactly the lines \<open>ls\<close>: its plaintext is the UTF-8 encoding of their
  text.
\<close>

definition records_of :: "pystr \<Rightarrow> pystr list \<Rightarrow> pystr list" where
  "records_of file_name ls =
     filter (\<lambda>l. take (Suc (length file_name)) l = file_name @ [9]) ls"

definition registry_plain :: "fernet \<Rightarrow> bytes \<Rightarrow> bytes \<Rightarrow> bytes option" where
  "registry_plain F k blob = (if blob = [] then Some [] else decrypt F k blob)"

definition registry_holds :: "fernet \<Rightarrow> bytes \<Rightarrow> pystr \<Rightarrow> pystr list \<Rightarrow> world \<Rightarrow> bool" where
  "registry_holds F k password_file ls w =
     (case files w (os_path_join (py ''Storage'') password_file) of
        None \<Rightarrow> False
      | Some blob \<Rightarrow>
          (case registry_plain F k blob of
             None \<Rightarrow> False
           | Some plain \<Rightarrow> encode_utf8 (registry_text ls) = Inr plain))"

section \<open>gdrive.py: the upload loop\<close>

text \<open>
  The value \<open>json.loads\<close> returns, and the two operations the code applies to it:
  \<open>x.get(key)\<close> exists on a dictionary only (and gives \<open>None\<close> for a missing key),
  \<open>x[0]\<close> is the first element of a list or string.
\<close>

datatype json =
    JNull
  | JBool bool
  | JNum int
  | JStr pystr
  | JArr "json list"
  | JObj "(pystr \<times> json) list"

fun py_get :: "json \<Rightarrow> pystr \<Rightarrow> error + json" where
  "py_get (JObj kvs) k = Inr (case map_of kvs k of None \<Rightarrow> JNull | Some v \<Rightarrow> v)"
| "py_get _ k = Inl AttributeError"

fun py_first :: "json \<Rightarrow> error + json" where
  "py_first (JArr []) = Inl IndexError"
| "py_first (JArr (x # xs)) = Inr x"
| "py_first (JStr []) = Inl IndexError"
| "py_first (JStr (c # cs)) = Inr (JStr [c])"
| "py_first (JObj kvs) = Inl KeyError"
| "py_first _ = Inl TypeError"

text \<open>
  An \<open>HttpError\<close> as the loop reads it: \<open>resp.status\<close>, the \<open>content-type\<close> header if
  there is one, and what \<open>json.loads(err.content)\<close> gives (\<open>None\<close> where the content is
  no JSON and the parser raises). A request is answered with the created file (its id
  and name) or with such an error.
\<close>

record http_error =
  status :: int
  content_type :: "pystr option"
  payload :: "json option"

datatype response = Created "pystr \<times> pystr" | Failed http_error

datatype printed = UnableToUpload | CouldNotUploadBecause json

text \<open>
  The surroundings of the loop: \<open>responses n\<close> is the answer the service gives to the
  request number \<open>n\<close> and \<open>requests\<close> how many requests were made; \<open>random\<close> is the
  sequence the random number generator will deliver and \<open>rand_drawn\<close> how many numbers
  were taken; \<open>sleeps\<close> are the arguments of \<open>time.sleep\<close> and \<open>stdout\<close> what was
  printed, oldest first. Seconds are real numbers.
\<close>

record remote =
  responses :: "nat \<Rightarrow> response"
  requests :: nat
  random :: "nat \<Rightarrow> nat"
  rand_drawn :: nat
  sleeps :: "real list"
  stdout :: "printed list"

text \<open>\<open>random.randint(a, b)\<close>: a number from \<open>a\<close> to \<open>b\<close>, both included.\<close>

definition randint :: "int \<Rightarrow> int \<Rightarrow> remote \<Rightarrow> (error + int) \<times> remote" where
  "randint a b s =
     (if b < a then (Inl (ValueError ''empty range for randrange()''), s)
      else (Inr (a + int (random s (rand_drawn s)) mod (b - a + 1)),
            s\<lparr>rand_drawn := rand_drawn s + 1\<rparr>))"

definition sleep :: "real \<Rightarrow> remote \<Rightarrow> remote" where
  "sleep t s = s\<lparr>sleeps := sleeps s @ [t]\<rparr>"

definition print :: "printed \<Rightarrow> remote \<Rightarrow> remote" where
  "print x s = s\<lparr>stdout := stdout s @ [x]\<rparr>"

definition max_tries :: nat where
  "max_tries = 10"

definition slot_time :: real where
  "slot_time = 0.1"

definition retry_statuses :: "int list" where
  "retry_statuses = [403, 500, 503, 502, 504]"

definition startswith :: "pystr \<Rightarrow> pystr \<Rightarrow> bool" where
  "startswith s p = (take (length p) s = p)"

text \<open>\<open>err.resp.get('content-type', '')\<close>.\<close>

definition resp_content_type :: "http_error \<Rightarrow> pystr" where
  "resp_content_type err = (case content_type err of None \<Rightarrow> [] | Some t \<Rightarrow> t)"

text \<open>
  Line 108: \<open>json.loads(err.content).get('error').get('errors')[0].get('reason')\<close>.
\<close>

definition error_reason :: "http_error \<Rightarrow> error + json" where
  "error_reason err =
     (case payload err of
        None \<Rightarrow> Inl JSONDecodeError
      | Some j \<Rightarrow>
          (case py_get j (py ''error'') of
             Inl e \<Rightarrow> Inl e
           | Inr a \<Rightarrow>
               (case py_get a (py ''errors'') of
                  Inl e \<Rightarrow> Inl e
                | Inr b \<Rightarrow>
                    (case py_first b of
                       Inl e \<Rightarrow> Inl e
                     | Inr c \<Rightarrow> py_get c (py ''reason'')))))"

text \<open>
  The loop of \<open>_upload_file\<close> with the two lines after it (lines 99 to 114), as a function
  of the loop variable \<open>try_counter\<close>. The Python function returns \<open>None\<close> whenever it
  does not raise; the model returns the last value of its local variable \<open>file\<close>, so that
  a created file shows in the result. An \<open>HttpError\<close> that is neither retried nor
  explained is raised again.
\<close>

function upload_loop :: "nat \<Rightarrow> remote \<Rightarrow> (error + (pystr \<times> pystr) option) \<times> remote" where
  "upload_loop try_counter s =
     (if try_counter < max_tries then
        (let s1 = s\<lparr>requests := requests s + 1\<rparr>
         in case responses s (requests s) of
              Created file \<Rightarrow> (Inr (Some file), s1)
            | Failed err \<Rightarrow>
                if status err \<in> set retry_statuses then
                  (case randint 0 (2 ^ (try_counter + 1) - 1) s1 of
                     (Inl e, s2) \<Rightarrow> (Inl e, s2)
                   | (Inr n, s2) \<Rightarrow>
                       upload_loop (try_counter + 1) (sleep (of_int n * slot_time) s2))
                else if startswith (resp_content_type err) (py ''application/json'') then
                  (case error_reason err of
                     Inl e \<Rightarrow> (Inl e, s1)
                   | Inr reason \<Rightarrow> (Inr None, print (CouldNotUploadBecause reason) s1))
                else (Inl (HttpError (nat (status err)) (resp_content_type err)), s1))
      else (Inr None, print UnableToUpload s))"
  by pat_completeness auto
termination
  by (relation "measure (\<lambda>(try_counter, s). max_tries - try_counter)") auto

declare upload_loop.simps [simp del]

text \<open>
  \<open>_upload_file\<close> from line 95 on: the loop starts with \<open>try_counter = 0\<close>. The lines
  before it build the request, which the answers of the service do not depend on here.
\<close>

definition upload_file :: "remote \<Rightarrow> (error + (pystr \<times> pystr) option) \<times> remote" where
  "upload_file s = upload_loop 0 s"

text \<open>How many requests a run made, and the sleeps and the output it added.\<close>

definition attempts :: "remote \<Rightarrow> remote \<Rightarrow> nat" where
  "attempts s s' = requests s' - requests s"

definition retryable :: "response \<Rightarrow> bool" where
  "retryable r = (case r of Created f \<Rightarrow> False | Failed err \<Rightarrow> status err \<in> set retry_statuses)"

text \<open>
  The wait the loop makes after a failed attempt that leaves \<open>try_counter = n\<close>
  (\<open>random.randint(0, 2**n - 1) * slot_time\<close>), when \<open>j\<close> random numbers were drawn
  since the state \<open>s\<close>; and the state after \<open>k\<close> retried attempts in a row that began
  with \<open>try_counter = c\<close>.
\<close>

definition backoff :: "remote \<Rightarrow> nat \<Rightarrow> nat \<Rightarrow> real" where
  "backoff s j n = of_int (int (random s (rand_drawn s + j)) mod 2 ^ n) * slot_time"

definition retried :: "nat \<Rightarrow> nat \<Rightarrow> remote \<Rightarrow> remote" where
  "retried c k s =
     s\<lparr>requests := requests s + k, rand_drawn := rand_drawn s + k,
       sleeps := sleeps s @ map (\<lambda>j. backoff s j (c + j + 1)) [0..<k]\<rparr>"

text \<open>
  Two services for the examples: one that answers 503 three times and then creates the
  file, and one that always answers 500.
\<close>

definition flaky_service :: remote where
  "flaky_service =
     \<lparr>responses = (\<lambda>n. if n < 3 then Failed \<lparr>status = 503, content_type = None, payload = None\<rparr>
                        else Created (py ''id1'', py ''a.txt'')),
      requests = 0, random = (\<lambda>n. 5), rand_drawn = 0, sleeps = [], stdout = []\<rparr>"

definition busy_service :: remote where
  "busy_service =
     \<lparr>responses = (\<lambda>n. Failed \<lparr>status = 500, content_type = None, payload = None\<rparr>),
      requests = 0, random = (\<lambda>n. 1000), rand_drawn = 0, sleeps = [], stdout = []\<rparr>"

text \<open>
  Two errors with a JSON payload that names a reason: a 403 for missing permission and a
  400 for an invalid request; and the services that answer every request with them.
\<close>

definition forbidden :: http_error where
  "forbidden =
     \<lparr>status = 403, content_type = Some (py ''application/json''),
      payload = Some (JObj [(py ''error'',
                  JObj [(py ''errors'',
                    JArr [JObj [(py ''reason'', JStr (py ''insufficientFilePermissions''))]])])])\<rparr>"

definition bad_request :: http_error where
  "bad_request =
     \<lparr>status = 400, content_type = Some (py ''application/json''),
      payload = Some (JObj [(py ''error'',
                  JObj [(py ''errors'', JArr [JObj [(py ''reason'', JStr (py ''invalid''))]])])])\<rparr>"

definition answering :: "http_error \<Rightarrow> remote" where
  "answering err =
     \<lparr>responses = (\<lambda>n. Failed err), requests = 0, random = (\<lambda>n. 7), rand_drawn = 0,
      sleeps = [], stdout = []\<rparr>"

text \<open>
  A machine on which nothing was done yet: no files, every file can be created, the
  random bytes count up from 0.
\<close>

definition fresh_machine :: world where
  "fresh_machine =
     \<lparr>files = Map.empty, can_create = (\<lambda>p. True), entropy = (\<lambda>n. of_nat n), drawn = 0,
      clock = 0, convert_key = None, events = []\<rparr>"

text \<open>
  For the examples: a stand-in for the primitive that takes keys of 44 bytes and puts a
  version byte before the data; a key of 44 bytes; and a machine that has the key in
  \<open>convert.key\<close> and holds the two files \<open>Storage/password.txt\<close> (an empty registry) and
  \<open>Storage/page.txt\<close> (three bytes).
\<close>

definition toy_fernet :: fernet where
  "toy_fernet =
     \<lparr>accepts_key = (\<lambda>k. length k = 44),
      encrypt = (\<lambda>k iv t d. 128 # d),
      decrypt = (\<lambda>k c. case c of [] \<Rightarrow> None | v # d \<Rightarrow> if v = 128 then Some d else None)\<rparr>"

definition toy_key :: bytes where
  "toy_key = replicate 44 65"

definition keyed_machine :: world where
  "keyed_machine =
     fresh_machine\<lparr>files := [py ''Storage/password.txt'' \<mapsto> [], py ''Storage/page.txt'' \<mapsto> [104, 105, 10]],
                    convert_key := Some toy_key\<rparr>"

text \<open>
  The two parts of a stored password: \<open>new_salt H w\<close> is the salt that
  \<open>get_password_hash\<close> makes in the state \<open>w\<close>, the hexadecimal SHA-256 digest of the
  next 60 random bytes; \<open>derived_hex H pb sb\<close> is the hexadecimal text of the 64 bytes
  that PBKDF2-HMAC-SHA512 derives in 100000 iterations from the password bytes \<open>pb\<close> and
  the salt bytes \<open>sb\<close>. Both are ASCII bytes.
\<close>

definition new_salt :: "hashlib \<Rightarrow> world \<Rightarrow> bytes" where
  "new_salt H w = hexlify (word_bytes 32 (sha256 H (fst (urandom 60 w))))"

definition derived_hex :: "hashlib \<Rightarrow> bytes \<Rightarrow> bytes \<Rightarrow> bytes" where
  "derived_hex H pb sb = hexlify (word_bytes 64 (pbkdf2_hmac_sha512 H pb sb 100000))"

text \<open>
  The string \<open>get_password_hash\<close> returns in the state \<open>w\<close> for a password with the
  UTF-8 bytes \<open>pb\<close>: the salt followed by the derivation.
\<close>

definition stored_string :: "hashlib \<Rightarrow> bytes \<Rightarrow> world \<Rightarrow> pystr" where
  "stored_string H pb w =
     map unat (new_salt H w) @ map unat (derived_hex H pb (new_salt H w))"

text \<open>Stand-ins for the hash functions, for the examples.\<close>

definition toy_hashlib :: hashlib where
  "toy_hashlib =
     \<lparr>sha256 = (\<lambda>bs. of_nat (sum_list (map unat bs))),
      pbkdf2_hmac_sha512 = (\<lambda>pb sb n. of_nat (sum_list (map unat (pb @ sb)) + n))\<rparr>"

text \<open>
  A machine like \<open>keyed_machine\<close> whose registry \<open>Storage/password.txt\<close> holds one line,
  for the page \<open>b.txt\<close>, as a token of the stand-in primitive.
\<close>

definition old_line :: pystr where
  "old_line = py ''b.txt'' @ [9] @ py ''c0ffee''"

definition registry_machine :: world where
  "registry_machine =
     keyed_machine\<lparr>files := (files keyed_machine)
        (py ''Storage/password.txt'' \<mapsto> 128 # map of_nat (old_line @ [10]))\<rparr>"

text \<open>
  The machine \<open>keyed_machine\<close> after the password \<open>pw\<close> of the page \<open>a.txt\<close> was stored
  in its empty registry.
\<close>

definition once_stored :: world where
  "once_stored =
     snd (store_password toy_fernet toy_hashlib (py ''a.txt'') (py ''pw'') (py ''password.txt'')
            keyed_machine)"

section \<open>The upload loop retries and gives up\<close>

lemma upload_loop_step:
  assumes "c < max_tries" "retryable (responses s (requests s))"
  shows "upload_loop c s = upload_loop (c + 1) (retried c 1 s)"
proof -
  obtain err where e: "responses s (requests s) = Failed err" "status err \<in> set retry_statuses"
    using assms(2) by (auto simp: retryable_def split: response.splits)
  have "(0::int) < 2 ^ (c + 1)"
    by simp
  then have p: "\<not> ((2::int) ^ (c + 1) - 1 < 0)"
    by linarith
  have "retried c 1 s = sleep (of_int (int (random s (rand_drawn s)) mod 2 ^ (c + 1)) * slot_time)
          (s\<lparr>requests := requests s + 1, rand_drawn := rand_drawn s + 1\<rparr>)"
    by (simp add: retried_def sleep_def backoff_def)
  then show ?thesis
    using assms(1) e p
    by (subst upload_loop.simps) (simp add: randint_def Let_def)
qed

lemma retried_Suc: "retried (c + k) 1 (retried c k s) = retried c (Suc k) s"
  by (simp add: retried_def backoff_def)

lemma responses_retried [simp]: "responses (retried c k s) = responses s"
  and requests_retried [simp]: "requests (retried c k s) = requests s + k"
  by (simp_all add: retried_def)

lemma upload_loop_retries:
  "c + k \<le> max_tries \<Longrightarrow> (\<forall>i<k. retryable (responses s (requests s + i)))
   \<Longrightarrow> upload_loop c s = upload_loop (c + k) (retried c k s)"
proof (induction k)
  case 0
  then show ?case by (simp add: retried_def)
next
  case (Suc k)
  have "upload_loop c s = upload_loop (c + k) (retried c k s)"
    using Suc by simp
  also have "\<dots> = upload_loop (c + k + 1) (retried (c + k) 1 (retried c k s))"
    using Suc.prems by (intro upload_loop_step) simp_all
  finally show ?case using retried_Suc [of c k s] by simp
qed

lemma upload_loop_created:
  "c < max_tries \<Longrightarrow> responses s (requests s) = Created f
   \<Longrightarrow> upload_loop c s = (Inr (Some f), s\<lparr>requests := requests s + 1\<rparr>)"
  by (subst upload_loop.simps) simp

lemma upload_loop_exhausted:
  "\<not> c < max_tries \<Longrightarrow> upload_loop c s = (Inr None, print UnableToUpload s)"
  by (subst upload_loop.simps) simp

lemma backoff_range:
  "\<exists>r. 0 \<le> r \<and> r \<le> 2 ^ n - 1 \<and> backoff s j n = real_of_int r * 0.1"
proof -
  let ?r = "int (random s (rand_drawn s + j)) mod 2 ^ n"
  have "0 \<le> ?r" "?r < 2 ^ n"
    by simp_all
  then have "0 \<le> ?r \<and> ?r \<le> 2 ^ n - 1 \<and> backoff s j n = real_of_int ?r * 0.1"
    by (simp add: backoff_def slot_time_def)
  then show ?thesis by blast
qed

text \<open>
  C8. When the first three requests are answered with a retryable status and the fourth
  creates the file, \<open>_upload_file\<close> ends with that file after exactly four requests and
  three sleeps, and prints nothing. When ten requests in a row are answered with a
  retryable status, it makes exactly ten requests, raises nothing, has no file and prints
  that it was unable to upload. The sleep after the failed attempt number \<open>n\<close> is
  \<open>r * 0.1\<close> seconds for a random integer \<open>r\<close> from \<open>0\<close> to \<open>2 ^ n - 1\<close> (the loop
  also sleeps after the tenth failure, when no attempt follows).
\<close>

theorem upload_retry:
  "((\<forall>i<3. retryable (responses s (requests s + i))) \<and> responses s (requests s + 3) = Created f
      \<longrightarrow> fst (upload_file s) = Inr (Some f)
          \<and> attempts s (snd (upload_file s)) = 4
          \<and> sleeps (snd (upload_file s))
              = sleeps s @ [backoff s 0 1, backoff s 1 2, backoff s 2 3]
          \<and> stdout (snd (upload_file s)) = stdout s)
   \<and> ((\<forall>i<10. retryable (responses s (requests s + i)))
      \<longrightarrow> fst (upload_file s) = Inr None
          \<and> attempts s (snd (upload_file s)) = 10
          \<and> sleeps (snd (upload_file s)) = sleeps s @ map (\<lambda>n. backoff s (n - 1) n) [1..<11]
          \<and> stdout (snd (upload_file s)) = stdout s @ [UnableToUpload])
   \<and> (\<forall>j n. \<exists>r. 0 \<le> r \<and> r \<le> 2 ^ n - 1 \<and> backoff s j n = real_of_int r * 0.1)"
proof (intro conjI impI)
  assume a: "(\<forall>i<3. retryable (responses s (requests s + i))) \<and> responses s (requests s + 3) = Created f"
  have "upload_loop 0 s = upload_loop (0 + 3) (retried 0 3 s)"
    using a by (intro upload_loop_retries) (simp_all add: max_tries_def)
  also have "\<dots> = (Inr (Some f), (retried 0 3 s)\<lparr>requests := requests (retried 0 3 s) + 1\<rparr>)"
    using a by (intro upload_loop_created) (simp_all add: max_tries_def)
  finally have r: "upload_file s = (Inr (Some f), (retried 0 3 s)\<lparr>requests := requests s + 4\<rparr>)"
    by (simp add: upload_file_def)
  show "fst (upload_file s) = Inr (Some f)"
    by (simp add: r)
  show "attempts s (snd (upload_file s)) = 4"
    by (simp add: r attempts_def)
  have "map (\<lambda>j. backoff s j (0 + j + 1)) [0..<3] = [backoff s 0 1, backoff s 1 2, backoff s 2 3]"
    by (simp add: eval_nat_numeral)
  then show "sleeps (snd (upload_file s)) = sleeps s @ [backoff s 0 1, backoff s 1 2, backoff s 2 3]"
    by (simp add: r retried_def)
  show "stdout (snd (upload_file s)) = stdout s"
    by (simp add: r retried_def)
next
  assume a: "\<forall>i<10. retryable (responses s (requests s + i))"
  have "upload_loop 0 s = upload_loop (0 + 10) (retried 0 10 s)"
    using a by (intro upload_loop_retries) (simp_all add: max_tries_def)
  also have "\<dots> = (Inr None, print UnableToUpload (retried 0 10 s))"
    by (intro upload_loop_exhausted) (simp add: max_tries_def)
  finally have r: "upload_file s = (Inr None, print UnableToUpload (retried 0 10 s))"
    by (simp add: upload_file_def)
  show "fst (upload_file s) = Inr None"
    by (simp add: r)
  show "attempts s (snd (upload_file s)) = 10"
    by (simp add: r attempts_def print_def)
  have "map (\<lambda>j. backoff s j (0 + j + 1)) [0..<10] = map (\<lambda>n. backoff s (n - 1) n) (map Suc [0..<10])"
    by simp
  also have "map Suc [0..<10] = [1..<11]"
    by (simp only: map_Suc_upt) simp
  finally show "sleeps (snd (upload_file s)) = sleeps s @ map (\<lambda>n. backoff s (n - 1) n) [1..<11]"
    by (simp add: r print_def retried_def)
  show "stdout (snd (upload_file s)) = stdout s @ [UnableToUpload]"
    by (simp add: r print_def retried_def)
next
  show "\<forall>j n. \<exists>r. 0 \<le> r \<and> r \<le> 2 ^ n - 1 \<and> backoff s j n = real_of_int r * 0.1"
    using backoff_range by blast
qed

theorem upload_retry_witness:
  "fst (upload_file flaky_service) = Inr (Some (py ''id1'', py ''a.txt''))
   \<and> attempts flaky_service (snd (upload_file flaky_service)) = 4
   \<and> fst (upload_file busy_service) = Inr None
   \<and> attempts busy_service (snd (upload_file busy_service)) = 10
   \<and> stdout (snd (upload_file busy_service)) = [UnableToUpload]"
proof -
  have 1: "(\<forall>i<3. retryable (responses flaky_service (requests flaky_service + i)))
           \<and> responses flaky_service (requests flaky_service + 3) = Created (py ''id1'', py ''a.txt'')"
    by (simp add: flaky_service_def retryable_def retry_statuses_def)
  have 2: "\<forall>i<10. retryable (responses busy_service (requests busy_service + i))"
    by (simp add: busy_service_def retryable_def retry_statuses_def)
  have 3: "stdout busy_service = []"
    by (simp add: busy_service_def)
  show ?thesis
    using upload_retry [where s = flaky_service and f = "(py ''id1'', py ''a.txt'')"]
      upload_retry [where s = busy_service] 1 2 3
    by simp
qed

section \<open>The upload loop stops at an explained error\<close>

lemma upload_loop_explained:
  "c < max_tries \<Longrightarrow> responses s (requests s) = Failed err \<Longrightarrow> status err \<notin> set retry_statuses
   \<Longrightarrow> startswith (resp_content_type err) (py ''application/json'')
   \<Longrightarrow> error_reason err = Inr reason
   \<Longrightarrow> upload_loop c s
       = (Inr None, print (CouldNotUploadBecause reason) (s\<lparr>requests := requests s + 1\<rparr>))"
  by (subst upload_loop.simps) simp

lemma length_sleeps_retried: "length (sleeps (retried c k s)) = length (sleeps s) + k"
  and stdout_retried: "stdout (retried c k s) = stdout s"
  by (simp_all add: retried_def)

text \<open>
  C9, as the code has it. An error is explained and not retried when its status is none
  of 403, 500, 502, 503 and 504, its content type starts with \<open>application/json\<close> and its
  payload yields a reason. When such an error answers a request after \<open>k\<close> retried ones
  (\<open>k = 0\<close>: the first request), \<open>_upload_file\<close> makes no further request, so \<open>k + 1\<close>
  in all, does not sleep again, raises nothing, has no file and prints the reason.
\<close>

theorem upload_permanent:
  "(\<forall>i<k. retryable (responses s (requests s + i))) \<and> k < 10
   \<and> responses s (requests s + k) = Failed err
   \<and> status err \<notin> set retry_statuses
   \<and> startswith (resp_content_type err) (py ''application/json'')
   \<and> error_reason err = Inr reason
   \<longrightarrow> fst (upload_file s) = Inr None
       \<and> attempts s (snd (upload_file s)) = k + 1
       \<and> length (sleeps (snd (upload_file s))) = length (sleeps s) + k
       \<and> stdout (snd (upload_file s)) = stdout s @ [CouldNotUploadBecause reason]"
proof
  assume a: "(\<forall>i<k. retryable (responses s (requests s + i))) \<and> k < 10
   \<and> responses s (requests s + k) = Failed err
   \<and> status err \<notin> set retry_statuses
   \<and> startswith (resp_content_type err) (py ''application/json'')
   \<and> error_reason err = Inr reason"
  have "upload_loop 0 s = upload_loop (0 + k) (retried 0 k s)"
    using a by (intro upload_loop_retries) (simp_all add: max_tries_def)
  also have "\<dots> = (Inr None, print (CouldNotUploadBecause reason)
                       ((retried 0 k s)\<lparr>requests := requests (retried 0 k s) + 1\<rparr>))"
    using a by (intro upload_loop_explained) (auto simp: max_tries_def)
  finally have r: "upload_file s = (Inr None, print (CouldNotUploadBecause reason)
                       ((retried 0 k s)\<lparr>requests := requests s + k + 1\<rparr>))"
    by (simp add: upload_file_def add.assoc)
  show "fst (upload_file s) = Inr None
       \<and> attempts s (snd (upload_file s)) = k + 1
       \<and> length (sleeps (snd (upload_file s))) = length (sleeps s) + k
       \<and> stdout (snd (upload_file s)) = stdout s @ [CouldNotUploadBecause reason]"
    by (simp add: r attempts_def print_def length_sleeps_retried stdout_retried)
qed

lemma reason_bad_request: "error_reason bad_request = Inr (JStr (py ''invalid''))"
  by (simp add: error_reason_def bad_request_def)

lemma reason_forbidden: "error_reason forbidden = Inr (JStr (py ''insufficientFilePermissions''))"
  by (simp add: error_reason_def forbidden_def)

theorem upload_permanent_witness:
  "fst (upload_file (answering bad_request)) = Inr None
   \<and> attempts (answering bad_request) (snd (upload_file (answering bad_request))) = 1
   \<and> sleeps (snd (upload_file (answering bad_request))) = []
   \<and> stdout (snd (upload_file (answering bad_request)))
       = [CouldNotUploadBecause (JStr (py ''invalid''))]"
proof -
  have "(\<forall>i<0::nat. retryable (responses (answering bad_request) (requests (answering bad_request) + i)))
        \<and> (0::nat) < 10
        \<and> responses (answering bad_request) (requests (answering bad_request) + 0) = Failed bad_request
        \<and> status bad_request \<notin> set retry_statuses
        \<and> startswith (resp_content_type bad_request) (py ''application/json'')
        \<and> error_reason bad_request = Inr (JStr (py ''invalid''))"
    by (simp add: reason_bad_request) (simp add: answering_def bad_request_def retry_statuses_def startswith_def resp_content_type_def)
  then show ?thesis
    using upload_permanent [where s = "answering bad_request" and k = 0 and err = bad_request
        and reason = "JStr (py ''invalid'')"]
    by (simp add: answering_def)
qed

text \<open>
  C9 as stated fails: the status is looked at before the payload. An error with status
  403 whose JSON payload names the reason \<open>insufficientFilePermissions\<close> is retried
  like every 403: ten requests are made and the reason is never printed.
\<close>

theorem upload_forbidden_retried:
  "status forbidden = 403
   \<and> startswith (resp_content_type forbidden) (py ''application/json'')
   \<and> error_reason forbidden = Inr (JStr (py ''insufficientFilePermissions''))
   \<and> fst (upload_file (answering forbidden)) = Inr None
   \<and> attempts (answering forbidden) (snd (upload_file (answering forbidden))) = 10
   \<and> stdout (snd (upload_file (answering forbidden))) = [UnableToUpload]"
proof -
  have a: "\<forall>i<10. retryable (responses (answering forbidden) (requests (answering forbidden) + i))"
    by (simp add: answering_def retryable_def forbidden_def retry_statuses_def)
  have "upload_loop 0 (answering forbidden) = upload_loop (0 + 10) (retried 0 10 (answering forbidden))"
    using a by (intro upload_loop_retries) (simp_all add: max_tries_def)
  also have "\<dots> = (Inr None, print UnableToUpload (retried 0 10 (answering forbidden)))"
    by (intro upload_loop_exhausted) (simp add: max_tries_def)
  finally have r: "upload_file (answering forbidden)
      = (Inr None, print UnableToUpload (retried 0 10 (answering forbidden)))"
    by (simp add: upload_file_def)
  have "attempts (answering forbidden) (snd (upload_file (answering forbidden))) = 10"
    by (simp add: r attempts_def print_def)
  moreover have "stdout (snd (upload_file (answering forbidden))) = [UnableToUpload]"
    by (simp add: r print_def stdout_retried) (simp add: answering_def)
  moreover have "status forbidden = 403 \<and> startswith (resp_content_type forbidden) (py ''application/json'')"
    by (simp add: forbidden_def startswith_def resp_content_type_def)
  ultimately show ?thesis
    by (simp add: r reason_forbidden)
qed

section \<open>The key file\<close>

lemma length_urlsafe_b64encode: "length (urlsafe_b64encode bs) = 4 * ((length bs + 2) div 3)"
proof (induction bs rule: urlsafe_b64encode.induct)
  case (4 x y z rest)
  have "(length rest + 5) div 3 = Suc ((length rest + 2) div 3)"
    by presburger
  with 4 show ?case
    by (simp add: add.commute)
qed simp_all

lemma length_urandom: "length (fst (urandom n w)) = n"
  by (simp add: urandom_def)

lemma load_key_fresh:
  assumes "files w (os_path_join file_path file_name) = None"
    and "can_create w (os_path_join file_path file_name)"
  shows "load_key file_path file_name w
         = (Inr (urlsafe_b64encode (fst (urandom 32 w))),
            w\<lparr>drawn := drawn w + 32,
              files := (files w)(os_path_join file_path file_name
                          \<mapsto> urlsafe_b64encode (fst (urandom 32 w)))\<rparr>)"
  using assms
  by (simp add: load_key_def generate_key_def fernet_generate_key_def urandom_def Let_def)

lemma load_key_present:
  "files w (os_path_join file_path file_name) = Some key
   \<Longrightarrow> load_key file_path file_name w = (Inr key, w)"
  by (simp add: load_key_def)

text \<open>
  C6, as the code has it. Where no key file exists at the path and one can be created,
  \<open>_load_key\<close> returns the URL-safe base64 text of 32 random bytes, which is 44 bytes
  long, and leaves a file with exactly these bytes there; the next call with the same
  arguments returns the same bytes and changes nothing: no key is generated and no
  random byte is drawn.
\<close>

theorem load_key_creates:
  "files w (os_path_join file_path file_name) = None
   \<and> can_create w (os_path_join file_path file_name)
   \<longrightarrow> fst (load_key file_path file_name w) = Inr (urlsafe_b64encode (fst (urandom 32 w)))
       \<and> length (urlsafe_b64encode (fst (urandom 32 w))) = 44
       \<and> files (snd (load_key file_path file_name w)) (os_path_join file_path file_name)
           = Some (urlsafe_b64encode (fst (urandom 32 w)))
       \<and> load_key file_path file_name (snd (load_key file_path file_name w))
           = (Inr (urlsafe_b64encode (fst (urandom 32 w))), snd (load_key file_path file_name w))"
proof
  assume a: "files w (os_path_join file_path file_name) = None
   \<and> can_create w (os_path_join file_path file_name)"
  note r = load_key_fresh [of w file_path file_name]
  have l: "length (urlsafe_b64encode (fst (urandom 32 w))) = 44"
    by (simp add: length_urlsafe_b64encode length_urandom)
  have f: "files (snd (load_key file_path file_name w)) (os_path_join file_path file_name)
           = Some (urlsafe_b64encode (fst (urandom 32 w)))"
    using a by (simp add: r)
  show "fst (load_key file_path file_name w) = Inr (urlsafe_b64encode (fst (urandom 32 w)))
       \<and> length (urlsafe_b64encode (fst (urandom 32 w))) = 44
       \<and> files (snd (load_key file_path file_name w)) (os_path_join file_path file_name)
           = Some (urlsafe_b64encode (fst (urandom 32 w)))
       \<and> load_key file_path file_name (snd (load_key file_path file_name w))
           = (Inr (urlsafe_b64encode (fst (urandom 32 w))), snd (load_key file_path file_name w))"
    using a l f load_key_present [OF f] by (simp add: r)
qed

theorem load_key_creates_witness:
  "map_sum id length (fst (load_key (py ''./'') (py ''key.key'') fresh_machine)) = Inr 44
   \<and> fst (load_key (py ''./'') (py ''key.key'') (snd (load_key (py ''./'') (py ''key.key'') fresh_machine)))
       = fst (load_key (py ''./'') (py ''key.key'') fresh_machine)
   \<and> drawn (snd (load_key (py ''./'') (py ''key.key'') (snd (load_key (py ''./'') (py ''key.key'') fresh_machine))))
       = 32"
proof -
  have h: "files fresh_machine (os_path_join (py ''./'') (py ''key.key'')) = None
        \<and> can_create fresh_machine (os_path_join (py ''./'') (py ''key.key''))"
    by (simp add: fresh_machine_def)
  have d: "drawn (snd (load_key (py ''./'') (py ''key.key'') fresh_machine)) = 32"
    using h by (simp add: load_key_fresh) (simp add: fresh_machine_def)
  show ?thesis
    using load_key_creates [of fresh_machine "py ''./''" "py ''key.key''"] h d by simp
qed

text \<open>
  C6 as stated fails on the size: on a machine without files the key file that
  \<open>_load_key\<close> creates holds 44 bytes, not 32.
\<close>

theorem key_file_44_bytes:
  "map_option length
     (files (snd (load_key (py ''./'') (py ''key.key'') fresh_machine))
        (os_path_join (py ''./'') (py ''key.key''))) = Some 44"
proof -
  have h: "files fresh_machine (os_path_join (py ''./'') (py ''key.key'')) = None"
    "can_create fresh_machine (os_path_join (py ''./'') (py ''key.key''))"
    by (simp_all add: fresh_machine_def)
  show ?thesis
    by (simp add: load_key_fresh [OF h] length_urlsafe_b64encode length_urandom)
qed

section \<open>Encrypting and decrypting files\<close>

lemma py_modes [simp]:
  "py ''encrypt'' \<noteq> py ''decrypt''" "py ''decrypt'' \<noteq> py ''encrypt''"
  "py ''write'' \<noteq> py ''return''" "py ''return'' \<noteq> py ''write''"
  by (simp_all add: py_def)

lemma primitive_calls_log [simp]:
  "primitive_calls (log_event (LogDebug m) w) = primitive_calls w"
  "primitive_calls (log_event (LogError m) w) = primitive_calls w"
  "primitive_calls (log_event (ThreadStart f as) w) = primitive_calls w"
  by (simp_all add: primitive_calls_def log_event_def)

lemma primitive_calls_upd [simp]:
  "primitive_calls (w\<lparr>files := fs\<rparr>) = primitive_calls w"
  "primitive_calls (w\<lparr>drawn := d\<rparr>) = primitive_calls w"
  "primitive_calls (w\<lparr>convert_key := ck\<rparr>) = primitive_calls w"
  by (simp_all add: primitive_calls_def)

lemma primitive_calls_load_key:
  "primitive_calls (snd (load_key file_path file_name w)) = primitive_calls w"
  by (simp add: load_key_def generate_key_def fernet_generate_key_def urandom_def Let_def
      split: option.splits)

lemma primitive_calls_cached_key:
  "primitive_calls (snd (cached_key w)) = primitive_calls w"
proof (cases "convert_key w")
  case None
  obtain r w1 where l: "load_key (py ''./'') (py ''key.key'')
      (log_event (LogDebug (py ''Creating new key'')) w) = (r, w1)"
    by (cases "load_key (py ''./'') (py ''key.key'') (log_event (LogDebug (py ''Creating new key'')) w)")
  have "primitive_calls w1 = primitive_calls w"
    using primitive_calls_load_key [of "py ''./''" "py ''key.key''"
        "log_event (LogDebug (py ''Creating new key'')) w"] l by simp
  then show ?thesis
    using None l by (cases r) (simp_all add: cached_key_def)
next
  case (Some k)
  then show ?thesis by (simp add: cached_key_def)
qed

lemma cached_key_sets:
  "cached_key w = (Inr k, w1) \<Longrightarrow> convert_key w1 = Some k"
  by (auto simp: cached_key_def split: option.splits prod.splits sum.splits)

lemma cached_key_again:
  "convert_key w = Some k \<Longrightarrow> cached_key w = (Inr k, w)"
  by (simp add: cached_key_def)

lemma convert_empty_file:
  assumes "conversion_type \<in> {py ''encrypt'', py ''decrypt''}"
    and "storage_type \<in> {py ''write'', py ''return''}"
    and "cached_key w = (Inr k, w1)" and "accepts_key F k"
    and "files w1 (os_path_join file_path file_name) = Some []"
  shows "convert F file_name conversion_type file_path storage_type w = (Inr (Some []), w1)"
  using assms by (auto simp: convert_def)

text \<open>
  C2. Whatever the primitive is, with a key the \<open>Fernet\<close> constructor accepts:
  \<open>convert\<close> on an empty file returns the empty byte string, in the mode \<open>encrypt\<close> as
  in the mode \<open>decrypt\<close> and for both storage types, leaves the file as it is and calls
  neither \<open>fer.encrypt\<close> nor \<open>fer.decrypt\<close>: the state is the one after the key was
  looked up, and the list of calls of the primitive is the one before the call.
\<close>

theorem convert_empty:
  "conversion_type \<in> {py ''encrypt'', py ''decrypt''}
   \<and> storage_type \<in> {py ''write'', py ''return''}
   \<and> cached_key w = (Inr k, w1) \<and> accepts_key F k
   \<and> files w1 (os_path_join file_path file_name) = Some []
   \<longrightarrow> convert F file_name conversion_type file_path storage_type w = (Inr (Some []), w1)
       \<and> primitive_calls w1 = primitive_calls w"
proof
  assume a: "conversion_type \<in> {py ''encrypt'', py ''decrypt''}
   \<and> storage_type \<in> {py ''write'', py ''return''}
   \<and> cached_key w = (Inr k, w1) \<and> accepts_key F k
   \<and> files w1 (os_path_join file_path file_name) = Some []"
  have "primitive_calls w1 = primitive_calls w"
    using a primitive_calls_cached_key [of w] by simp
  moreover have "convert F file_name conversion_type file_path storage_type w = (Inr (Some []), w1)"
    using a by (intro convert_empty_file) blast+
  ultimately show "convert F file_name conversion_type file_path storage_type w = (Inr (Some []), w1)
       \<and> primitive_calls w1 = primitive_calls w"
    by simp
qed

lemma toy_accepts: "accepts_key toy_fernet toy_key"
  by (simp add: toy_fernet_def toy_key_def)

lemma keyed_cached: "cached_key keyed_machine = (Inr toy_key, keyed_machine)"
  by (simp add: cached_key_def keyed_machine_def)

lemma storage_paths:
  "os_path_join (py ''Storage'') (py ''password.txt'') = py ''Storage/password.txt''"
  "os_path_join (py ''Storage'') (py ''page.txt'') = py ''Storage/page.txt''"
  by (simp_all add: os_path_join_def py_def)

theorem convert_empty_witness:
  "convert toy_fernet (py ''password.txt'') (py ''encrypt'') (py ''Storage'') (py ''write'') keyed_machine
     = (Inr (Some []), keyed_machine)
   \<and> convert toy_fernet (py ''password.txt'') (py ''decrypt'') (py ''Storage'') (py ''return'') keyed_machine
     = (Inr (Some []), keyed_machine)"
proof -
  have f: "files keyed_machine (os_path_join (py ''Storage'') (py ''password.txt'')) = Some []"
    by (simp add: storage_paths) (simp add: keyed_machine_def py_def)
  show ?thesis
    using convert_empty [of "py ''encrypt''" "py ''write''" keyed_machine toy_key keyed_machine
        toy_fernet "py ''Storage''" "py ''password.txt''"]
      convert_empty [of "py ''decrypt''" "py ''return''" keyed_machine toy_key keyed_machine
        toy_fernet "py ''Storage''" "py ''password.txt''"]
      f toy_accepts keyed_cached
    by simp
qed


lemma fernet_soundD:
  "fernet_sound F \<Longrightarrow> accepts_key F k \<Longrightarrow> decrypt F k (encrypt F k iv t d) = Some d"
  "fernet_sound F \<Longrightarrow> accepts_key F k \<Longrightarrow> encrypt F k iv t d \<noteq> []"
  by (simp_all add: fernet_sound_def)

lemma convert_encrypt:
  assumes "cached_key w = (Inr k, w1)" and "accepts_key F k"
    and "files w1 (os_path_join file_path file_name) = Some b" and "b \<noteq> []"
  shows "convert F file_name (py ''encrypt'') file_path (py ''write'') w
         = (Inr None,
            (log_event (FernetEncrypt b) (snd (urandom 16 w1)))
              \<lparr>files := (files w1)(os_path_join file_path file_name
                           \<mapsto> encrypt F k (fst (urandom 16 w1)) (clock w1) b)\<rparr>)"
    and "convert F file_name (py ''encrypt'') file_path (py ''return'') w
         = (Inr (Some (encrypt F k (fst (urandom 16 w1)) (clock w1) b)),
            log_event (FernetEncrypt b) (snd (urandom 16 w1)))"
  using assms by (simp_all add: convert_def urandom_def log_event_def)

lemma convert_decrypt:
  assumes "cached_key w = (Inr k, w1)" and "accepts_key F k"
    and "files w1 (os_path_join file_path file_name) = Some c" and "c \<noteq> []"
    and "decrypt F k c = Some b"
  shows "convert F file_name (py ''decrypt'') file_path (py ''write'') w
         = (Inr None,
            (log_event (FernetDecrypt c) w1)
              \<lparr>files := (files w1)(os_path_join file_path file_name \<mapsto> b)\<rparr>)"
    and "convert F file_name (py ''decrypt'') file_path (py ''return'') w
         = (Inr (Some b), log_event (FernetDecrypt c) w1)"
  using assms by (simp_all add: convert_def log_event_def)

text \<open>
  C1. With a primitive that decrypts its own tokens and a key it accepts: after a file
  with the non-empty contents \<open>b\<close> was encrypted in place, decrypting it returns exactly
  \<open>b\<close> (storage type \<open>return\<close>) and restores \<open>b\<close> in the file (storage type \<open>write\<close>);
  and the token that the mode \<open>encrypt\<close> returns decrypts to \<open>b\<close>.
\<close>

theorem convert_roundtrip:
  "fernet_sound F \<and> cached_key w = (Inr k, w1) \<and> accepts_key F k
   \<and> files w1 (os_path_join file_path file_name) = Some b \<and> b \<noteq> []
   \<longrightarrow> fst (convert F file_name (py ''encrypt'') file_path (py ''write'') w) = Inr None
       \<and> fst (convert F file_name (py ''decrypt'') file_path (py ''return'')
                (snd (convert F file_name (py ''encrypt'') file_path (py ''write'') w)))
           = Inr (Some b)
       \<and> files (snd (convert F file_name (py ''decrypt'') file_path (py ''write'')
                (snd (convert F file_name (py ''encrypt'') file_path (py ''write'') w))))
           (os_path_join file_path file_name) = Some b
       \<and> map_sum id (\<lambda>r. case r of None \<Rightarrow> None | Some c \<Rightarrow> decrypt F k c)
           (fst (convert F file_name (py ''encrypt'') file_path (py ''return'') w))
           = Inr (Some b)"
proof
  assume a: "fernet_sound F \<and> cached_key w = (Inr k, w1) \<and> accepts_key F k
   \<and> files w1 (os_path_join file_path file_name) = Some b \<and> b \<noteq> []"
  let ?file = "os_path_join file_path file_name"
  let ?c = "encrypt F k (fst (urandom 16 w1)) (clock w1) b"
  let ?w2 = "(log_event (FernetEncrypt b) (snd (urandom 16 w1)))\<lparr>files := (files w1)(?file \<mapsto> ?c)\<rparr>"
  have e: "convert F file_name (py ''encrypt'') file_path (py ''write'') w = (Inr None, ?w2)"
    "convert F file_name (py ''encrypt'') file_path (py ''return'') w
       = (Inr (Some ?c), log_event (FernetEncrypt b) (snd (urandom 16 w1)))"
    using a by (simp_all add: convert_encrypt)
  have "convert_key w1 = Some k"
    using a cached_key_sets by blast
  then have "convert_key ?w2 = Some k"
    by (simp add: log_event_def urandom_def)
  then have k2: "cached_key ?w2 = (Inr k, ?w2)"
    by (rule cached_key_again)
  have f2: "files ?w2 ?file = Some ?c"
    by simp
  have c: "?c \<noteq> []" "decrypt F k ?c = Some b"
    using a by (simp_all add: fernet_soundD)
  note d = convert_decrypt [OF k2 _ f2 c]
  have acc: "accepts_key F k"
    using a by simp
  show "fst (convert F file_name (py ''encrypt'') file_path (py ''write'') w) = Inr None
       \<and> fst (convert F file_name (py ''decrypt'') file_path (py ''return'')
                (snd (convert F file_name (py ''encrypt'') file_path (py ''write'') w)))
           = Inr (Some b)
       \<and> files (snd (convert F file_name (py ''decrypt'') file_path (py ''write'')
                (snd (convert F file_name (py ''encrypt'') file_path (py ''write'') w))))
           (os_path_join file_path file_name) = Some b
       \<and> map_sum id (\<lambda>r. case r of None \<Rightarrow> None | Some c \<Rightarrow> decrypt F k c)
           (fst (convert F file_name (py ''encrypt'') file_path (py ''return'') w))
           = Inr (Some b)"
    by (simp add: e d [OF acc] c)
qed

lemma toy_sound: "fernet_sound toy_fernet"
  by (simp add: fernet_sound_def toy_fernet_def)

theorem convert_roundtrip_witness:
  "fst (convert toy_fernet (py ''page.txt'') (py ''decrypt'') (py ''Storage'') (py ''return'')
         (snd (convert toy_fernet (py ''page.txt'') (py ''encrypt'') (py ''Storage'') (py ''write'')
                keyed_machine)))
   = Inr (Some [104, 105, 10])"
proof -
  have f: "files keyed_machine (os_path_join (py ''Storage'') (py ''page.txt'')) = Some [104, 105, 10]"
    by (simp add: storage_paths) (simp add: keyed_machine_def py_def)
  show ?thesis
    using convert_roundtrip [of toy_fernet keyed_machine toy_key keyed_machine
        "py ''Storage''" "py ''page.txt''" "[104, 105, 10]"]
      f toy_accepts keyed_cached toy_sound
    by simp
qed

section \<open>Password hashes\<close>

lemma unat_byte: "m < 256 \<Longrightarrow> unat (of_nat m :: byte) = m"
  by (simp add: unat_of_nat)

lemma hexdigit_ascii:
  assumes "n < 16"
  shows "unat (hexdigit n) < 128"
proof (cases "n < 10")
  case True
  then have "hexdigit n = of_nat (48 + n)"
    by (simp only: hexdigit_def if_True)
  moreover have "unat (of_nat (48 + n) :: byte) = 48 + n"
    using True unat_byte [of "48 + n"] by simp
  ultimately show ?thesis
    using True by simp
next
  case False
  then have "hexdigit n = of_nat (87 + n)"
    by (simp only: hexdigit_def if_False)
  moreover have "unat (of_nat (87 + n) :: byte) = 87 + n"
    using assms unat_byte [of "87 + n"] by simp
  ultimately show ?thesis
    using assms by simp
qed

lemma unat_byte_div16: "unat (x :: byte) div 16 < 16"
  using unsigned_less [of x, where ?'a = nat] by (simp add: div_less_iff_less_mult)

lemma hexlify_ascii: "b \<in> set (hexlify bs) \<Longrightarrow> unat b < 128"
  by (auto simp: hexlify_def hexdigit_ascii unat_byte_div16)

lemma length_hexlify: "length (hexlify bs) = 2 * length bs"
  by (induction bs) (simp_all add: hexlify_def)

lemma length_word_bytes: "length (word_bytes n w) = n"
  by (simp add: word_bytes_def)

lemma decode_utf8_ascii: "(\<forall>b\<in>set bs. unat b < 128) \<Longrightarrow> decode_utf8 bs = Inr (map unat bs)"
  by (induction bs) simp_all

lemma decode_ascii_ascii: "(\<forall>b\<in>set bs. unat b < 128) \<Longrightarrow> decode_ascii bs = Inr (map unat bs)"
  by (induction bs) simp_all

lemma encode_utf8_ascii: "(\<forall>b\<in>set bs. unat b < 128) \<Longrightarrow> encode_utf8 (map unat bs) = Inr bs"
  by (induction bs) (simp_all add: utf8_char_def)

lemma encode_ascii_ascii: "(\<forall>b\<in>set bs. unat b < 128) \<Longrightarrow> encode_ascii (map unat bs) = Inr bs"
  by (induction bs) simp_all

lemma encode_utf8_error: "encode_utf8 s = Inl e \<Longrightarrow> e = UnicodeEncodeError ''utf-8''"
  by (induction s arbitrary: e) (auto split: option.splits sum.splits)

lemma encode_ascii_error: "encode_ascii s = Inl e \<Longrightarrow> e = UnicodeEncodeError ''ascii''"
  by (induction s arbitrary: e) (auto split: if_splits sum.splits)

lemma new_salt_props: "length (new_salt H w) = 64" "\<forall>b\<in>set (new_salt H w). unat b < 128"
  by (auto simp: new_salt_def length_hexlify length_word_bytes hexlify_ascii)

lemma derived_hex_props: "length (derived_hex H pb sb) = 128" "\<forall>b\<in>set (derived_hex H pb sb). unat b < 128"
  by (auto simp: derived_hex_def length_hexlify length_word_bytes hexlify_ascii)

lemma get_password_hash_eq:
  assumes "encode_utf8 word = Inr wb"
  shows "get_password_hash H word w
         = (Inr (map unat (new_salt H w) @ map unat (derived_hex H wb (new_salt H w))),
            snd (urandom 60 w))"
proof -
  have s: "encode_utf8 (map unat (new_salt H w)) = Inr (new_salt H w)"
    by (simp add: encode_utf8_ascii new_salt_props)
  have d: "decode_utf8 (new_salt H w @ derived_hex H wb (new_salt H w))
           = Inr (map unat (new_salt H w @ derived_hex H wb (new_salt H w)))"
    by (rule decode_utf8_ascii) (use new_salt_props(2) derived_hex_props(2) in auto)
  show ?thesis
    using s d assms
    by (simp add: get_password_hash_def new_salt_def derived_hex_def split_beta Let_def)
qed

lemma verify_password_eq:
  assumes "length p \<le> 1024" "encode_utf8 p = Inr pb" "encode_ascii (take 64 stored) = Inr sb"
  shows "verify_password H p stored = Inr (map unat (derived_hex H pb sb) = drop 64 stored)"
proof -
  have "decode_ascii (derived_hex H pb sb) = Inr (map unat (derived_hex H pb sb))"
    by (simp add: decode_ascii_ascii derived_hex_props)
  then show ?thesis
    using assms by (simp add: verify_password_def derived_hex_def)
qed


lemma encode_pw: "encode_utf8 (py ''pw'') = Inr [112, 119]"
  by (simp add: py_def utf8_char_def)

text \<open>
  C4. For a password that has a UTF-8 encoding \<open>wb\<close>, \<open>get_password_hash\<close> returns a
  string of exactly 192 characters. Its first 64 characters are the salt, the
  hexadecimal SHA-256 digest of 60 random bytes; the other 128 are the hexadecimal text
  of the 64 bytes that PBKDF2-HMAC-SHA512 derives in 100000 iterations from \<open>wb\<close> and the
  ASCII bytes of the salt.
\<close>

theorem password_hash_shape:
  "encode_utf8 word = Inr wb
   \<longrightarrow> (\<exists>s. fst (get_password_hash H word w) = Inr s
          \<and> length s = 192
          \<and> take 64 s = map unat (new_salt H w)
          \<and> drop 64 s = map unat (derived_hex H wb (new_salt H w)))"
  by (simp add: get_password_hash_eq new_salt_props derived_hex_props)

theorem password_hash_shape_witness:
  "\<exists>s. fst (get_password_hash toy_hashlib (py ''pw'') fresh_machine) = Inr s
       \<and> length s = 192
       \<and> take 64 s = map unat (new_salt toy_hashlib fresh_machine)
       \<and> drop 64 s = map unat (derived_hex toy_hashlib [112, 119] (new_salt toy_hashlib fresh_machine))"
  using password_hash_shape [of "py ''pw''" "[112, 119]" toy_hashlib fresh_machine] encode_pw
  by simp

text \<open>
  C3. For a password of at most 1024 characters that has a UTF-8 encoding, whatever
  random bytes the salt is made from: \<open>get_password_hash\<close> returns a string, and
  \<open>verify_password\<close> of the password and that string returns \<open>True\<close>.
\<close>

theorem verify_own_hash:
  "length p \<le> 1024 \<and> encode_utf8 p = Inr pb
   \<longrightarrow> (\<exists>s. fst (get_password_hash H p w) = Inr s \<and> verify_password H p s = Inr True)"
proof
  assume a: "length p \<le> 1024 \<and> encode_utf8 p = Inr pb"
  let ?s = "map unat (new_salt H w) @ map unat (derived_hex H pb (new_salt H w))"
  have g: "fst (get_password_hash H p w) = Inr ?s"
    using a by (simp add: get_password_hash_eq)
  have t: "take 64 ?s = map unat (new_salt H w)" "drop 64 ?s = map unat (derived_hex H pb (new_salt H w))"
    by (simp_all add: new_salt_props)
  have "encode_ascii (take 64 ?s) = Inr (new_salt H w)"
    by (simp only: t) (simp add: encode_ascii_ascii new_salt_props)
  then have "verify_password H p ?s = Inr (map unat (derived_hex H pb (new_salt H w)) = drop 64 ?s)"
    using a by (intro verify_password_eq) simp_all
  then have "verify_password H p ?s = Inr True"
    by (simp only: t) simp
  with g show "\<exists>s. fst (get_password_hash H p w) = Inr s \<and> verify_password H p s = Inr True"
    by blast
qed

theorem verify_own_hash_witness:
  "\<exists>s. fst (get_password_hash toy_hashlib (py ''pw'') fresh_machine) = Inr s
       \<and> verify_password toy_hashlib (py ''pw'') s = Inr True"
proof -
  have "length (py ''pw'') \<le> 1024"
    by (simp add: py_def)
  then show ?thesis
    using verify_own_hash [of "py ''pw''" "[112, 119]" toy_hashlib fresh_machine] encode_pw
    by simp
qed

text \<open>
  C5. \<open>verify_password\<close> raises the \<open>ValueError\<close> about the length exactly when the
  provided password has more than 1024 characters. For a provided password of at most
  1024 characters (with its UTF-8 bytes \<open>pb\<close>) and a stored string whose first 64
  characters, the salt, are ASCII (with the bytes \<open>sb\<close>), as in every string that
  \<open>get_password_hash\<close> returns, it does not raise: it returns whether the hexadecimal
  derivation recomputed from the password and the salt equals the rest of the stored
  string.
\<close>

theorem verify_password_raises:
  "((verify_password H p stored = Inl (ValueError ''Password length must not exceed 1024''))
      = (length p > 1024))
   \<and> (length p \<le> 1024 \<and> encode_utf8 p = Inr pb \<and> encode_ascii (take 64 stored) = Inr sb
      \<longrightarrow> verify_password H p stored = Inr (map unat (derived_hex H pb sb) = drop 64 stored))"
proof (intro conjI impI)
  show "(verify_password H p stored = Inl (ValueError ''Password length must not exceed 1024''))
      = (length p > 1024)"
  proof (cases "length p > 1024")
    case True
    then show ?thesis by (simp add: verify_password_def)
  next
    case False
    show ?thesis
    proof (cases "encode_utf8 p")
      case (Inl e)
      then show ?thesis
        using False encode_utf8_error [OF Inl] by (simp add: verify_password_def)
    next
      case pb: (Inr pb)
      show ?thesis
      proof (cases "encode_ascii (take 64 stored)")
        case (Inl e)
        then show ?thesis
          using False pb encode_ascii_error [OF Inl] by (simp add: verify_password_def)
      next
        case (Inr sb)
        then show ?thesis
          using False pb verify_password_eq [of p pb stored sb H] by simp
      qed
    qed
  qed
next
  assume "length p \<le> 1024 \<and> encode_utf8 p = Inr pb \<and> encode_ascii (take 64 stored) = Inr sb"
  then show "verify_password H p stored = Inr (map unat (derived_hex H pb sb) = drop 64 stored)"
    by (simp add: verify_password_eq)
qed

theorem verify_password_raises_witness:
  "verify_password toy_hashlib (py ''pw'') (py ''00'')
     = Inr (map unat (derived_hex toy_hashlib [112, 119] [48, 48]) = drop 64 (py ''00''))"
proof -
  have 1: "length (py ''pw'') \<le> 1024 \<and> encode_utf8 (py ''pw'') = Inr [112, 119]
           \<and> encode_ascii (take 64 (py ''00'')) = Inr [48, 48]"
    by (simp add: encode_pw) (simp add: py_def)
  show ?thesis
    using verify_password_raises [of toy_hashlib "py ''pw''" "py ''00''" "[112, 119]" "[48, 48]"] 1
    by simp
qed

section \<open>UTF-8: decoding what was encoded\<close>

lemma split2: "128 \<le> c \<Longrightarrow> c < 2048 \<Longrightarrow> 2 \<le> c div 64 \<and> c div 64 < (32::nat)"
  by (simp add: less_mult_imp_div_less le_div_geq div_greater_zero_iff)

lemma split3: "c < 65536 \<Longrightarrow> c div 4096 < (16::nat)"
  by (simp add: less_mult_imp_div_less)

lemma split4: "c < 1114112 \<Longrightarrow> c div 262144 < (5::nat)"
  by (simp add: less_mult_imp_div_less)

lemma join3: "c div 4096 * 4096 + c div 64 mod 64 * 64 + c mod 64 = (c::nat)"
proof -
  have "c mod 4096 = 64 * (c div 64 mod 64) + c mod 64"
    using mod_mult2_eq [of c 64 64] by simp
  moreover have "c div 4096 * 4096 + c mod 4096 = c"
    by simp
  ultimately show ?thesis by simp
qed

lemma join4:
  "c div 262144 * 262144 + c div 4096 mod 64 * 4096 + c div 64 mod 64 * 64 + c mod 64 = (c::nat)"
proof -
  have "c mod 4096 = 64 * (c div 64 mod 64) + c mod 64"
    using mod_mult2_eq [of c 64 64] by simp
  moreover have "c mod 262144 = 4096 * (c div 4096 mod 64) + c mod 4096"
    using mod_mult2_eq [of c 4096 64] by simp
  moreover have "c div 262144 * 262144 + c mod 262144 = c"
    by simp
  ultimately show ?thesis by simp
qed

lemma utf8_step2:
  assumes "128 \<le> c" "c < 2048"
  shows "utf8_step ((192 + c div 64) # (128 + c mod 64) # rest) = Some (c, 1)"
  using split2 [OF assms] by (simp add: cont_def)

lemma utf8_step3:
  assumes "2048 \<le> c" "c < 65536" "\<not> (55296 \<le> c \<and> c \<le> 57343)"
  shows "utf8_step ((224 + c div 4096) # (128 + c div 64 mod 64) # (128 + c mod 64) # rest)
         = Some (c, 2)"
  using assms split3 [OF assms(2)] by (simp add: cont_def join3)

lemma utf8_step4:
  assumes "65536 \<le> c" "c < 1114112"
  shows "utf8_step ((240 + c div 262144) # (128 + c div 4096 mod 64) # (128 + c div 64 mod 64)
           # (128 + c mod 64) # rest) = Some (c, 3)"
  using assms split4 [OF assms(2)] by (simp add: cont_def join4)



lemma decode_utf8_char:
  assumes "utf8_char c = Some bc"
  shows "decode_utf8 (bc @ rest)
         = (case decode_utf8 rest of Inl e \<Rightarrow> Inl e | Inr r \<Rightarrow> Inr (c # r))"
proof -
  consider "c < 128" | "128 \<le> c" "c < 2048"
    | "2048 \<le> c" "c < 65536" "\<not> (55296 \<le> c \<and> c \<le> 57343)"
    | "65536 \<le> c" "c < 1114112"
    using assms by (fastforce simp: utf8_char_def split: if_splits)
  then show ?thesis
  proof cases
    case 1
    define b0 :: byte where "b0 = of_nat c"
    have u: "unat b0 = c"
      unfolding b0_def using 1 by (intro unat_byte) simp
    have "bc = [b0]"
      using assms 1 by (simp add: utf8_char_def b0_def)
    then show ?thesis
      using 1 by (simp add: u)
  next
    case 2
    define b0 :: byte where "b0 = of_nat (192 + c div 64)"
    define b1 :: byte where "b1 = of_nat (128 + c mod 64)"
    have u: "unat b0 = 192 + c div 64" "unat b1 = 128 + c mod 64"
      unfolding b0_def b1_def using split2 [OF 2] by (intro unat_byte; simp)+
    have "bc = [b0, b1]"
      using assms 2 by (simp add: utf8_char_def b0_def b1_def)
    then show ?thesis
      by (simp add: u utf8_step2 [OF 2] del: utf8_step.simps)
  next
    case 3
    define b0 :: byte where "b0 = of_nat (224 + c div 4096)"
    define b1 :: byte where "b1 = of_nat (128 + c div 64 mod 64)"
    define b2 :: byte where "b2 = of_nat (128 + c mod 64)"
    have u: "unat b0 = 224 + c div 4096" "unat b1 = 128 + c div 64 mod 64" "unat b2 = 128 + c mod 64"
      unfolding b0_def b1_def b2_def using split3 [OF 3(2)] by (intro unat_byte; simp)+
    have "bc = [b0, b1, b2]"
      using assms 3 by (simp add: utf8_char_def b0_def b1_def b2_def)
    then show ?thesis
      by (simp add: u utf8_step3 [OF 3] del: utf8_step.simps)
  next
    case 4
    define b0 :: byte where "b0 = of_nat (240 + c div 262144)"
    define b1 :: byte where "b1 = of_nat (128 + c div 4096 mod 64)"
    define b2 :: byte where "b2 = of_nat (128 + c div 64 mod 64)"
    define b3 :: byte where "b3 = of_nat (128 + c mod 64)"
    have u: "unat b0 = 240 + c div 262144" "unat b1 = 128 + c div 4096 mod 64"
      "unat b2 = 128 + c div 64 mod 64" "unat b3 = 128 + c mod 64"
      unfolding b0_def b1_def b2_def b3_def using split4 [OF 4(2)] by (intro unat_byte; simp)+
    have "bc = [b0, b1, b2, b3]"
      using assms 4 by (simp add: utf8_char_def b0_def b1_def b2_def b3_def)
    then show ?thesis
      by (simp add: u utf8_step4 [OF 4] del: utf8_step.simps)
  qed
qed

lemma decode_encode_utf8: "encode_utf8 s = Inr bs \<Longrightarrow> decode_utf8 bs = Inr s"
proof (induction s arbitrary: bs)
  case Nil
  then show ?case by simp
next
  case (Cons c cs)
  then obtain bc rest where p: "utf8_char c = Some bc" "encode_utf8 cs = Inr rest" "bs = bc @ rest"
    by (auto split: option.splits sum.splits)
  then show ?case
    using Cons.IH [of rest] by (simp add: decode_utf8_char)
qed




section \<open>Reading the lines of the registry text\<close>

lemma isspace_newline: "isspace 10"
  by (simp add: isspace_def)

lemma rstrip_record_line: "record_line l \<Longrightarrow> rstrip l = l"
proof -
  assume a: "record_line l"
  then obtain y c where l: "l = y @ [c]" "\<not> isspace c"
    by (cases l rule: rev_cases) (simp_all add: record_line_def)
  then show ?thesis
    by (simp add: rstrip_def)
qed

lemma rstrip_line_newline: "record_line l \<Longrightarrow> rstrip (x @ l @ [10]) = x @ l"
proof -
  assume a: "record_line l"
  then obtain y c where l: "l = y @ [c]" "\<not> isspace c"
    by (cases l rule: rev_cases) (simp_all add: record_line_def)
  then show ?thesis
    by (simp add: rstrip_def isspace_newline)
qed


lemma split_on_plain: "sep \<notin> set l \<Longrightarrow> split_on sep l = [l]"
  by (induction l) simp_all

lemma split_on_line: "sep \<notin> set l \<Longrightarrow> split_on sep (l @ sep # rest) = l # split_on sep rest"
  by (induction l) simp_all

lemma registry_text_Cons: "registry_text (x # ls) = x @ 10 # registry_text ls"
  by (simp add: registry_text_def)

lemma split_on_registry:
  "(\<forall>l\<in>set ls. 10 \<notin> set l) \<Longrightarrow> 10 \<notin> set l
   \<Longrightarrow> split_on 10 (registry_text ls @ l) = ls @ [l]"
proof (induction ls)
  case Nil
  then show ?case by (simp add: registry_text_def split_on_plain)
next
  case (Cons x ls)
  have "split_on 10 (x @ 10 # (registry_text ls @ l)) = x # split_on 10 (registry_text ls @ l)"
    using Cons.prems by (intro split_on_line) simp
  then show ?case
    using Cons by (simp add: registry_text_Cons)
qed


lemma registry_text_snoc: "registry_text (ls @ [l]) = registry_text ls @ l @ [10]"
  by (simp add: registry_text_def)

lemma parse_registry:
  assumes "\<forall>l\<in>set ls. record_line l"
  shows "registry_lines (registry_text ls) = ls"
proof (cases ls rule: rev_cases)
  case Nil
  then show ?thesis
    by (simp add: registry_lines_def registry_text_def rstrip_def)
next
  case (snoc xs l)
  have r: "record_line l" "\<forall>x\<in>set xs. record_line x"
    using assms snoc by simp_all
  have 1: "rstrip (registry_text ls) = registry_text xs @ l"
    using r(1) by (simp add: snoc registry_text_snoc rstrip_line_newline)
  have 2: "split_on 10 (registry_text xs @ l) = xs @ [l]"
    using r by (intro split_on_registry) (simp_all add: record_line_def)
  have 3: "map rstrip (xs @ [l]) = xs @ [l]"
    using r by (simp add: rstrip_record_line map_idI)
  have 4: "xs @ [l] \<noteq> [[]]"
    using r(1) by (simp add: record_line_def) 
  show ?thesis
    unfolding registry_lines_def Let_def 1 2 3 using 4 snoc by simp
qed

section \<open>Appending to the password registry\<close>

lemma encode_utf8_append:
  "encode_utf8 (a @ b)
   = (case encode_utf8 a of
        Inl e \<Rightarrow> Inl e
      | Inr x \<Rightarrow> (case encode_utf8 b of Inl e \<Rightarrow> Inl e | Inr y \<Rightarrow> Inr (x @ y)))"
  by (induction a) (simp_all split: option.splits sum.splits)

lemma write_lines_encode: "encode_utf8 (concat ls) = Inr bs \<Longrightarrow> write_lines ls = (bs, None)"
proof (induction ls arbitrary: bs)
  case Nil
  then show ?case by simp
next
  case (Cons l ls)
  then obtain x y where p: "encode_utf8 l = Inr x" "encode_utf8 (concat ls) = Inr y" "bs = x @ y"
    by (auto simp: encode_utf8_append split: sum.splits)
  then show ?case
    using Cons.IH [of y] by simp
qed

lemma encode_stored_string:
  "encode_utf8 (stored_string H pb w) = Inr (new_salt H w @ derived_hex H pb (new_salt H w))"
proof -
  have "stored_string H pb w = map unat (new_salt H w @ derived_hex H pb (new_salt H w))"
    by (simp add: stored_string_def)
  moreover have "\<forall>b\<in>set (new_salt H w @ derived_hex H pb (new_salt H w)). unat b < 128"
    using new_salt_props(2) derived_hex_props(2) by auto
  ultimately show ?thesis
    by (simp only: encode_utf8_ascii)
qed

lemma hexdigit_range:
  assumes "n < 16"
  shows "48 \<le> unat (hexdigit n) \<and> unat (hexdigit n) \<le> 102"
proof (cases "n < 10")
  case True
  then have "hexdigit n = of_nat (48 + n)"
    by (simp only: hexdigit_def if_True)
  moreover have "unat (of_nat (48 + n) :: byte) = 48 + n"
    using True unat_byte [of "48 + n"] by simp
  ultimately show ?thesis
    using True by simp
next
  case False
  then have "hexdigit n = of_nat (87 + n)"
    by (simp only: hexdigit_def if_False)
  moreover have "unat (of_nat (87 + n) :: byte) = 87 + n"
    using assms unat_byte [of "87 + n"] by simp
  ultimately show ?thesis
    using assms by simp
qed

lemma hexlify_range: "b \<in> set (hexlify bs) \<Longrightarrow> 48 \<le> unat b \<and> unat b \<le> 102"
  by (auto simp: hexlify_def hexdigit_range unat_byte_div16)

lemma stored_string_range:
  "c \<in> set (stored_string H pb w) \<Longrightarrow> 48 \<le> c \<and> c \<le> 102"
  by (auto simp: stored_string_def new_salt_def derived_hex_def dest: hexlify_range)

lemma stored_string_props:
  "length (stored_string H pb w) = 192" "stored_string H pb w \<noteq> []"
  "\<not> isspace (last (stored_string H pb w))" "10 \<notin> set (stored_string H pb w)"
proof -
  show l: "length (stored_string H pb w) = 192"
    by (simp add: stored_string_def new_salt_props derived_hex_props)
  then show n: "stored_string H pb w \<noteq> []"
    by auto
  then have "last (stored_string H pb w) \<in> set (stored_string H pb w)"
    by simp
  then have "48 \<le> last (stored_string H pb w) \<and> last (stored_string H pb w) \<le> 102"
    by (rule stored_string_range)
  then show "\<not> isspace (last (stored_string H pb w))"
    by (simp add: isspace_def)
  show "10 \<notin> set (stored_string H pb w)"
    using stored_string_range [of 10 H pb w] by auto
qed

lemma record_line_new:
  "10 \<notin> set file_name \<Longrightarrow> record_line (file_name @ [9] @ stored_string H pb w)"
  by (simp add: record_line_def stored_string_props)

lemma get_password_hash_stored:
  "encode_utf8 word = Inr wb
   \<Longrightarrow> get_password_hash H word w = (Inr (stored_string H wb w), snd (urandom 60 w))"
  by (simp add: get_password_hash_eq stored_string_def)

lemma convert_registry_read:
  assumes "cached_key w = (Inr k, w1)" and "accepts_key F k"
    and "files w1 (os_path_join (py ''Storage'') password_file) = Some blob"
    and "registry_plain F k blob = Some plain"
  shows "convert F password_file (py ''decrypt'') (py ''Storage'') (py ''return'') w
         = (Inr (Some plain), if blob = [] then w1 else log_event (FernetDecrypt blob) w1)"
proof (cases "blob = []")
  case True
  then show ?thesis
    using assms convert_empty_file [of "py ''decrypt''" "py ''return''" w k w1 F "py ''Storage''" password_file]
    by (simp add: registry_plain_def)
next
  case False
  then show ?thesis
    using assms convert_decrypt(2) [of w k w1 F "py ''Storage''" password_file blob plain]
    by (simp add: registry_plain_def)
qed


lemma urandom_log_event:
  "fst (urandom n (log_event e w)) = fst (urandom n w)"
  by (simp add: urandom_def log_event_def)

lemma stored_string_log_event: "stored_string H pb (log_event e w) = stored_string H pb w"
  by (simp add: stored_string_def new_salt_def urandom_log_event)

lemma store_password_appends:
  assumes sound: "fernet_sound F" and key: "cached_key w = (Inr k, w1)" and acc: "accepts_key F k"
    and holds: "registry_holds F k password_file ls w1"
    and lines: "\<forall>l\<in>set ls. record_line l"
    and name: "encode_utf8 file_name = Inr fb" and pw: "encode_utf8 password = Inr pb"
  shows "fst (store_password F H file_name password password_file w) = Inr ()
         \<and> registry_holds F k password_file (ls @ [file_name @ [9] @ stored_string H pb w1])
             (snd (store_password F H file_name password password_file w))
         \<and> convert_key (snd (store_password F H file_name password password_file w)) = Some k"
proof -
  let ?file = "os_path_join (py ''Storage'') password_file"
  obtain blob plain where blob: "files w1 ?file = Some blob"
    and plain: "registry_plain F k blob = Some plain"
    and enc_old: "encode_utf8 (registry_text ls) = Inr plain"
    using holds by (auto simp: registry_holds_def split: option.splits)
  define w1a where "w1a = (if blob = [] then w1 else log_event (FernetDecrypt blob) w1)"
  have c1: "convert F password_file (py ''decrypt'') (py ''Storage'') (py ''return'') w
            = (Inr (Some plain), w1a)"
    unfolding w1a_def using key acc blob plain by (rule convert_registry_read)
  have w1a: "files w1a = files w1" "convert_key w1a = Some k"
    "stored_string H pb w1a = stored_string H pb w1"
    using cached_key_sets [OF key]
    by (simp_all add: w1a_def log_event_def stored_string_log_event [unfolded log_event_def])
  have dec: "decode_utf8 plain = Inr (registry_text ls)"
    using enc_old by (rule decode_encode_utf8)
  have parse: "registry_lines (registry_text ls) = ls"
    using lines by (rule parse_registry)
  define hash where "hash = stored_string H pb w1"
  define w2 where "w2 = snd (urandom 60 w1a)"
  have gph: "get_password_hash H password w1a = (Inr hash, w2)"
    using get_password_hash_stored [OF pw, of H w1a] by (simp add: hash_def w2_def w1a)
  have w2: "files w2 = files w1" "convert_key w2 = Some k"
    using w1a by (simp_all add: w2_def urandom_def)
  define line where "line = file_name @ [9] @ hash"
  define new where "new = plain @ fb @ [9] @ (new_salt H w1 @ derived_hex H pb (new_salt H w1)) @ [10]"
  have u: "utf8_char 9 = Some [9]" "utf8_char 10 = Some [10]"
    by (simp_all add: utf8_char_def)
  have enc: "encode_utf8 (registry_text (ls @ [line])) = Inr new"
    using enc_old name encode_stored_string [of H pb w1]
    by (simp add: registry_text_snoc line_def hash_def new_def encode_utf8_append u)
  have "concat (map (\<lambda>l. l @ [10]) (ls @ [line])) = registry_text (ls @ [line])"
    by (simp add: registry_text_def)
  then have wl: "write_lines (map (\<lambda>l. l @ [10]) (ls @ [line])) = (new, None)"
    using enc by (intro write_lines_encode) simp
  define w2' where "w2' = w2\<lparr>files := (files w2)(?file \<mapsto> new)\<rparr>"
  have k2: "cached_key w2' = (Inr k, w2')"
    using w2 by (intro cached_key_again) (simp add: w2'_def)
  have f2: "files w2' ?file = Some new"
    by (simp add: w2'_def)
  have nonempty: "new \<noteq> []"
    by (simp add: new_def)
  define c where "c = encrypt F k (fst (urandom 16 w2')) (clock w2') new"
  define w3 where "w3 = (log_event (FernetEncrypt new) (snd (urandom 16 w2')))\<lparr>files := (files w2')(?file \<mapsto> c)\<rparr>"
  have c2: "convert F password_file (py ''encrypt'') (py ''Storage'') (py ''write'') w2'
            = (Inr None, w3)"
    unfolding w3_def c_def using k2 acc f2 nonempty by (rule convert_encrypt(1))
  have exists: "\<not> (files w2 ?file = None \<and> \<not> can_create w2 ?file)"
    using w2 blob by simp
  have result: "store_password F H file_name password password_file w
        = (Inr (), log_event (ThreadStart (py ''gdrive.save_file'')
                     [password_file, py ''Password'', py ''Storage'']) w3)"
    using exists
    by (simp add: store_password_def c1 dec parse gph Let_def
        wl [unfolded line_def, simplified] c2 [unfolded w2'_def])
  have "registry_plain F k c = Some new"
    using sound acc by (simp add: registry_plain_def c_def fernet_soundD)
  then have "registry_holds F k password_file (ls @ [line])
      (log_event (ThreadStart (py ''gdrive.save_file'') [password_file, py ''Password'', py ''Storage'']) w3)"
    using enc by (simp add: registry_holds_def log_event_def w3_def)
  moreover have "convert_key (log_event (ThreadStart (py ''gdrive.save_file'')
      [password_file, py ''Password'', py ''Storage'']) w3) = Some k"
    using w2 by (simp add: log_event_def w3_def w2'_def urandom_def)
  ultimately show ?thesis
    by (simp add: result line_def hash_def)
qed

section \<open>The registry after an append\<close>

lemma records_of_snoc:
  "records_of file_name (ls @ [file_name @ [9] @ hash])
   = records_of file_name ls @ [file_name @ [9] @ hash]"
  by (simp add: records_of_def)

lemma registry_machine_key: "cached_key registry_machine = (Inr toy_key, registry_machine)"
  by (simp add: cached_key_def registry_machine_def keyed_machine_def)

lemma old_line_record: "record_line old_line"
  by (simp add: record_line_def old_line_def py_def isspace_def)

lemma registry_machine_holds:
  "registry_holds toy_fernet toy_key (py ''password.txt'') [old_line] registry_machine"
proof -
  have "\<forall>b\<in>set (map of_nat (old_line @ [10]) :: bytes). unat b < 128"
    by (simp add: old_line_def py_def)
  then have "encode_utf8 (map unat (map of_nat (old_line @ [10]) :: bytes))
             = Inr (map of_nat (old_line @ [10]))"
    by (rule encode_utf8_ascii)
  moreover have "map unat (map of_nat (old_line @ [10]) :: bytes) = registry_text [old_line]"
    by (simp add: old_line_def py_def registry_text_def)
  ultimately have "encode_utf8 (registry_text [old_line]) = Inr (map of_nat (old_line @ [10]))"
    by simp
  then show ?thesis
    by (simp add: registry_holds_def storage_paths registry_machine_def registry_plain_def
        toy_fernet_def)
qed

lemma encode_names:
  "encode_utf8 (py ''a.txt'') = Inr [97, 46, 116, 120, 116]"
  "encode_utf8 (py ''b.txt'') = Inr [98, 46, 116, 120, 116]"
  by (simp_all add: py_def utf8_char_def)


lemma keyed_machine_holds:
  "registry_holds toy_fernet toy_key (py ''password.txt'') [] keyed_machine"
proof -
  have "files keyed_machine (py ''Storage/password.txt'') = Some []"
    by (simp add: keyed_machine_def py_def)
  then show ?thesis
    by (simp add: registry_holds_def storage_paths registry_plain_def registry_text_def)
qed

lemma names_no_newline: "10 \<notin> set (py ''a.txt'')" "10 \<notin> set (py ''b.txt'')"
  by (simp_all add: py_def)

text \<open>
  C10. Let the registry file hold exactly the record lines \<open>ls\<close>, and let the page name
  and the password have UTF-8 encodings. Then \<open>_store_password\<close> succeeds, and afterwards
  the registry file holds exactly the lines \<open>ls\<close> followed by one new line, the page name,
  a tab and the stored string of the password: every line that was there is still there,
  unchanged and in its place, and the new record comes last. For a page name without a
  line break, reading this text back as \<open>_store_password\<close> does gives these lines again.
\<close>

theorem store_password_frame:
  "fernet_sound F \<and> cached_key w = (Inr k, w1) \<and> accepts_key F k
   \<and> registry_holds F k password_file ls w1 \<and> (\<forall>l\<in>set ls. record_line l)
   \<and> encode_utf8 file_name = Inr fb \<and> encode_utf8 password = Inr pb
   \<longrightarrow> fst (store_password F H file_name password password_file w) = Inr ()
       \<and> registry_holds F k password_file (ls @ [file_name @ [9] @ stored_string H pb w1])
           (snd (store_password F H file_name password password_file w))
       \<and> (10 \<notin> set file_name
            \<longrightarrow> registry_lines (registry_text (ls @ [file_name @ [9] @ stored_string H pb w1]))
                = ls @ [file_name @ [9] @ stored_string H pb w1])"
proof
  assume a: "fernet_sound F \<and> cached_key w = (Inr k, w1) \<and> accepts_key F k
   \<and> registry_holds F k password_file ls w1 \<and> (\<forall>l\<in>set ls. record_line l)
   \<and> encode_utf8 file_name = Inr fb \<and> encode_utf8 password = Inr pb"
  then have s: "fst (store_password F H file_name password password_file w) = Inr ()
         \<and> registry_holds F k password_file (ls @ [file_name @ [9] @ stored_string H pb w1])
             (snd (store_password F H file_name password password_file w))
         \<and> convert_key (snd (store_password F H file_name password password_file w)) = Some k"
    by (intro store_password_appends [where fb = fb]) blast+
  have "registry_lines (registry_text (ls @ [file_name @ [9] @ stored_string H pb w1]))
        = ls @ [file_name @ [9] @ stored_string H pb w1]" if "10 \<notin> set file_name"
    using a that record_line_new [of file_name H pb w1] by (intro parse_registry) auto
  with s show "fst (store_password F H file_name password password_file w) = Inr ()
       \<and> registry_holds F k password_file (ls @ [file_name @ [9] @ stored_string H pb w1])
           (snd (store_password F H file_name password password_file w))
       \<and> (10 \<notin> set file_name
            \<longrightarrow> registry_lines (registry_text (ls @ [file_name @ [9] @ stored_string H pb w1]))
                = ls @ [file_name @ [9] @ stored_string H pb w1])"
    by blast
qed

theorem store_password_frame_witness:
  "fst (store_password toy_fernet toy_hashlib (py ''a.txt'') (py ''pw'') (py ''password.txt'')
          registry_machine) = Inr ()
   \<and> registry_holds toy_fernet toy_key (py ''password.txt'')
        [old_line, py ''a.txt'' @ [9] @ stored_string toy_hashlib [112, 119] registry_machine]
        (snd (store_password toy_fernet toy_hashlib (py ''a.txt'') (py ''pw'') (py ''password.txt'')
                registry_machine))
   \<and> registry_lines (registry_text
        [old_line, py ''a.txt'' @ [9] @ stored_string toy_hashlib [112, 119] registry_machine])
       = [old_line, py ''a.txt'' @ [9] @ stored_string toy_hashlib [112, 119] registry_machine]"
proof -
  have h: "fernet_sound toy_fernet \<and> cached_key registry_machine = (Inr toy_key, registry_machine)
     \<and> accepts_key toy_fernet toy_key
     \<and> registry_holds toy_fernet toy_key (py ''password.txt'') [old_line] registry_machine
     \<and> (\<forall>l\<in>set [old_line]. record_line l)
     \<and> encode_utf8 (py ''a.txt'') = Inr [97, 46, 116, 120, 116]
     \<and> encode_utf8 (py ''pw'') = Inr [112, 119]"
    by (simp add: toy_sound registry_machine_key toy_accepts registry_machine_holds
        old_line_record encode_names encode_pw)
  show ?thesis
    using store_password_frame [of toy_fernet registry_machine toy_key registry_machine
        "py ''password.txt''" "[old_line]" "py ''a.txt''" "[97, 46, 116, 120, 116]" "py ''pw''"
        "[112, 119]" toy_hashlib] h names_no_newline
    by simp
qed


text \<open>
  C7, as the code has it. \<open>_store_password\<close> does not look for the page in the registry.
  When the registry already holds a record for the page, the call succeeds all the same
  and adds a further record for it at the end, so that the registry then holds two or
  more records for this page.
\<close>

theorem store_password_no_check:
  "fernet_sound F \<and> cached_key w = (Inr k, w1) \<and> accepts_key F k
   \<and> registry_holds F k password_file ls w1 \<and> (\<forall>l\<in>set ls. record_line l)
   \<and> encode_utf8 file_name = Inr fb \<and> encode_utf8 password = Inr pb
   \<and> records_of file_name ls \<noteq> []
   \<longrightarrow> fst (store_password F H file_name password password_file w) = Inr ()
       \<and> registry_holds F k password_file (ls @ [file_name @ [9] @ stored_string H pb w1])
           (snd (store_password F H file_name password password_file w))
       \<and> records_of file_name (ls @ [file_name @ [9] @ stored_string H pb w1])
           = records_of file_name ls @ [file_name @ [9] @ stored_string H pb w1]
       \<and> 2 \<le> length (records_of file_name (ls @ [file_name @ [9] @ stored_string H pb w1]))"
proof
  assume a: "fernet_sound F \<and> cached_key w = (Inr k, w1) \<and> accepts_key F k
   \<and> registry_holds F k password_file ls w1 \<and> (\<forall>l\<in>set ls. record_line l)
   \<and> encode_utf8 file_name = Inr fb \<and> encode_utf8 password = Inr pb
   \<and> records_of file_name ls \<noteq> []"
  then have s: "fst (store_password F H file_name password password_file w) = Inr ()
         \<and> registry_holds F k password_file (ls @ [file_name @ [9] @ stored_string H pb w1])
             (snd (store_password F H file_name password password_file w))
         \<and> convert_key (snd (store_password F H file_name password password_file w)) = Some k"
    by (intro store_password_appends [where fb = fb]) blast+
  have "records_of file_name ls \<noteq> []"
    using a by blast
  then obtain x xs where "records_of file_name ls = x # xs"
    by (cases "records_of file_name ls") auto
  then have "2 \<le> length (records_of file_name ls @ [file_name @ [9] @ stored_string H pb w1])"
    by simp
  with s show "fst (store_password F H file_name password password_file w) = Inr ()
       \<and> registry_holds F k password_file (ls @ [file_name @ [9] @ stored_string H pb w1])
           (snd (store_password F H file_name password password_file w))
       \<and> records_of file_name (ls @ [file_name @ [9] @ stored_string H pb w1])
           = records_of file_name ls @ [file_name @ [9] @ stored_string H pb w1]
       \<and> 2 \<le> length (records_of file_name (ls @ [file_name @ [9] @ stored_string H pb w1]))"
    by (simp only: records_of_snoc)
qed

lemma records_of_old_line: "records_of (py ''b.txt'') [old_line] = [old_line]"
  by (simp add: records_of_def old_line_def py_def)

theorem store_password_no_check_witness:
  "fst (store_password toy_fernet toy_hashlib (py ''b.txt'') (py ''pw'') (py ''password.txt'')
          registry_machine) = Inr ()
   \<and> records_of (py ''b.txt'')
        [old_line, py ''b.txt'' @ [9] @ stored_string toy_hashlib [112, 119] registry_machine]
       = [old_line, py ''b.txt'' @ [9] @ stored_string toy_hashlib [112, 119] registry_machine]"
proof -
  have h: "fernet_sound toy_fernet \<and> cached_key registry_machine = (Inr toy_key, registry_machine)
     \<and> accepts_key toy_fernet toy_key
     \<and> registry_holds toy_fernet toy_key (py ''password.txt'') [old_line] registry_machine
     \<and> (\<forall>l\<in>set [old_line]. record_line l)
     \<and> encode_utf8 (py ''b.txt'') = Inr [98, 46, 116, 120, 116]
     \<and> encode_utf8 (py ''pw'') = Inr [112, 119]
     \<and> records_of (py ''b.txt'') [old_line] \<noteq> []"
    by (simp add: toy_sound registry_machine_key toy_accepts registry_machine_holds
        old_line_record encode_names encode_pw records_of_old_line)
  show ?thesis
    using store_password_no_check [of toy_fernet registry_machine toy_key registry_machine
        "py ''password.txt''" "[old_line]" "py ''b.txt''" "[98, 46, 116, 120, 116]" "py ''pw''"
        "[112, 119]" toy_hashlib] h
    by (simp add: records_of_old_line)
qed

text \<open>
  C7 as stated fails: after the password of the page \<open>a.txt\<close> was stored in an empty
  registry, storing a password for \<open>a.txt\<close> again raises nothing, and the registry
  holds two lines for \<open>a.txt\<close>.
\<close>

theorem store_password_twice:
  "registry_holds toy_fernet toy_key (py ''password.txt'')
     [py ''a.txt'' @ [9] @ stored_string toy_hashlib [112, 119] keyed_machine] once_stored
   \<and> records_of (py ''a.txt'') [py ''a.txt'' @ [9] @ stored_string toy_hashlib [112, 119] keyed_machine]
       = [py ''a.txt'' @ [9] @ stored_string toy_hashlib [112, 119] keyed_machine]
   \<and> fst (store_password toy_fernet toy_hashlib (py ''a.txt'') (py ''pw'') (py ''password.txt'')
            once_stored) = Inr ()
   \<and> registry_holds toy_fernet toy_key (py ''password.txt'')
        [py ''a.txt'' @ [9] @ stored_string toy_hashlib [112, 119] keyed_machine,
         py ''a.txt'' @ [9] @ stored_string toy_hashlib [112, 119] once_stored]
        (snd (store_password toy_fernet toy_hashlib (py ''a.txt'') (py ''pw'') (py ''password.txt'')
                once_stored))"
proof -
  let ?l1 = "py ''a.txt'' @ [9] @ stored_string toy_hashlib [112, 119] keyed_machine"
  have first: "fst (store_password toy_fernet toy_hashlib (py ''a.txt'') (py ''pw'')
          (py ''password.txt'') keyed_machine) = Inr ()
      \<and> registry_holds toy_fernet toy_key (py ''password.txt'') ([] @ [?l1])
          (snd (store_password toy_fernet toy_hashlib (py ''a.txt'') (py ''pw'')
                 (py ''password.txt'') keyed_machine))
      \<and> convert_key (snd (store_password toy_fernet toy_hashlib (py ''a.txt'') (py ''pw'')
                 (py ''password.txt'') keyed_machine)) = Some toy_key"
    by (rule store_password_appends [OF toy_sound keyed_cached toy_accepts keyed_machine_holds _
          encode_names(1) encode_pw]) simp
  then have h1: "registry_holds toy_fernet toy_key (py ''password.txt'') [?l1] once_stored"
    and k1: "cached_key once_stored = (Inr toy_key, once_stored)"
    by (simp_all add: once_stored_def cached_key_again)
  have r1: "\<forall>l\<in>set [?l1]. record_line l"
    using record_line_new [OF names_no_newline(1)] by simp
  have second: "fst (store_password toy_fernet toy_hashlib (py ''a.txt'') (py ''pw'')
          (py ''password.txt'') once_stored) = Inr ()
      \<and> registry_holds toy_fernet toy_key (py ''password.txt'')
          ([?l1] @ [py ''a.txt'' @ [9] @ stored_string toy_hashlib [112, 119] once_stored])
          (snd (store_password toy_fernet toy_hashlib (py ''a.txt'') (py ''pw'')
                 (py ''password.txt'') once_stored))
      \<and> convert_key (snd (store_password toy_fernet toy_hashlib (py ''a.txt'') (py ''pw'')
                 (py ''password.txt'') once_stored)) = Some toy_key"
    by (rule store_password_appends [OF toy_sound k1 toy_accepts h1 r1 encode_names(1) encode_pw])
  have "records_of (py ''a.txt'') [?l1] = [?l1]"
    using records_of_snoc [of "py ''a.txt''" "[]"] by (simp add: records_of_def)
  with h1 second show ?thesis
    by simp
qed

end
